theory Spec2Isabelle
  imports Main "HOL-Library.Word"
begin

unbundle bit_operations_syntax

section \<open>Envelope: hybrid encryption on top of the OpenSSL EVP interface\<close>

text \<open>
  This theory embeds \<^verbatim>\<open>cpp/src/util/crypto/envelope.cpp\<close>: \<^verbatim>\<open>Envelope::Seal\<close> and the
  three overloads of \<^verbatim>\<open>Envelope::Open\<close>.

  The C++ code is an orchestration of calls into OpenSSL. OpenSSL is not part of the
  repository, so the library is a parameter of the model: a record with one field per
  library function the code calls. What the code itself does (the order of the calls, the
  tests on their return values, the sizing, filling and truncation of the output vectors,
  the narrowing of sizes to \<^verbatim>\<open>int\<close>, the assertions and the throws) is modelled from the
  source.

  Conventions.
  \<^item> Bytes are \<open>8 word\<close>; a buffer or a \<^verbatim>\<open>std::vector<unsigned char>\<close> is a list of bytes,
    and its size (a \<^verbatim>\<open>size_t\<close>) is the length of the list.
  \<^item> The \<^verbatim>\<open>int\<close> variables of the source (\<^verbatim>\<open>len\<close>, \<^verbatim>\<open>ciphertext_len\<close>, \<^verbatim>\<open>plaintext_len\<close>, the
    \<^verbatim>\<open>inl\<close> arguments of the update calls) are 32-bit: a size is narrowed by \<open>to_int\<close> and
    a sum wraps by \<open>int32\<close>.
  \<^item> The caller-supplied output objects are passed in and returned (state passing), so
    that what a failed call leaves in them is visible.
  \<^item> Every function also returns the list of the stateful library calls it has made,
    in order.
  \<^item> A library function that writes through a pointer returns the bytes it writes; the
    model stores in the destination the bytes that fall inside it. The source never
    tests whether a write fits, and neither does the model: the run goes on with the
    next statement.
\<close>

subsection \<open>Bytes, vectors, raw buffers and machine integers\<close>

type_synonym byte = "8 word"
type_synonym bytes = "byte list"

text \<open>
  \<^verbatim>\<open>std::vector::resize(n)\<close>: a longer vector is cut to its first \<open>n\<close> elements, a shorter
  one keeps its elements and is filled up with value-initialised ones (\<open>d\<close>).
\<close>

definition resize :: "nat \<Rightarrow> 'a \<Rightarrow> 'a list \<Rightarrow> 'a list" where
  "resize n d v = take n v @ replicate (n - length v) d"

text \<open>
  Writing the bytes \<open>w\<close> at offset \<open>off\<close> of the buffer \<open>buf\<close>: \<open>fits\<close> says that the write
  stays inside the buffer, \<open>poke\<close> is the buffer afterwards (the bytes of \<open>w\<close> that fall
  inside it are stored), \<open>spill\<close> are the bytes of \<open>w\<close> that land behind the end of the
  buffer.
\<close>

definition fits :: "bytes \<Rightarrow> nat \<Rightarrow> bytes \<Rightarrow> bool" where
  "fits buf off w \<longleftrightarrow> off + length w \<le> length buf"

definition poke :: "bytes \<Rightarrow> nat \<Rightarrow> bytes \<Rightarrow> bytes" where
  "poke buf off w = take (length buf) (take off buf @ w @ drop (off + length w) buf)"

definition spill :: "bytes \<Rightarrow> nat \<Rightarrow> bytes \<Rightarrow> bytes" where
  "spill buf off w = drop (length buf - off) w"

text \<open>
  The same for a write at \<^verbatim>\<open>buf + len\<close> with an \<^verbatim>\<open>int len\<close>: with a negative \<open>len\<close> all of
  \<open>w\<close> lands in front of the buffer.
\<close>

definition fits_at :: "bytes \<Rightarrow> int \<Rightarrow> bytes \<Rightarrow> bool" where
  "fits_at buf len w \<longleftrightarrow> 0 \<le> len \<and> fits buf (nat len) w"

definition poke_at :: "bytes \<Rightarrow> int \<Rightarrow> bytes \<Rightarrow> bytes" where
  "poke_at buf len w = (if 0 \<le> len then poke buf (nat len) w else buf)"

definition spill_at :: "bytes \<Rightarrow> int \<Rightarrow> bytes \<Rightarrow> bytes" where
  "spill_at buf len w = (if 0 \<le> len then spill buf (nat len) w else w)"

text \<open>
  A value of type \<^verbatim>\<open>int\<close>, 32 bits wide in two's complement: \<open>int32\<close> brings an integer
  into the range, as a sum of two \<^verbatim>\<open>int\<close>s does; \<open>to_int\<close> is the conversion of a \<^verbatim>\<open>size_t\<close>
  to \<^verbatim>\<open>int\<close>.
\<close>

definition int32 :: "int \<Rightarrow> int" where
  "int32 i = (i + 2 ^ 31) mod 2 ^ 32 - 2 ^ 31"

definition to_int :: "nat \<Rightarrow> int" where
  "to_int n = int32 (int n)"

subsection \<open>Failures\<close>

text \<open>
  \<open>OpenSSLException msg\<close> is what \<^verbatim>\<open>LogAndThrowOpenSSLError(msg)\<close> throws, with the message
  the caller passed (empty when it passed none). \<open>AssertionFailure\<close> is a failed
  \<^verbatim>\<open>assert\<close>, which aborts the program. \<open>BufferOverrun\<close> is the end of a run of \<^verbatim>\<open>Seal\<close> in
  which the library has written behind the end of one of the vectors: the heap is
  damaged and the function does not return to its caller. \<open>LengthError\<close> is the
  \<^verbatim>\<open>std::length_error\<close> of a \<^verbatim>\<open>resize\<close> to a negative \<^verbatim>\<open>int\<close>, which is a size no vector can
  have.
\<close>

datatype failure = OpenSSLException string | AssertionFailure | BufferOverrun | LengthError

text \<open>
  Modelled from the spec: \<^verbatim>\<open>LogAndThrowOpenSSLError\<close> is declared in
  \<^verbatim>\<open>util/crypto/openssl_error.h\<close>, which is not among the sources. By the specification
  every failure of the library and every unknown cipher name aborts the call with a
  failure that carries the diagnostic text; the model keeps the message the caller
  passes.
\<close>

definition LogAndThrowOpenSSLError :: "string \<Rightarrow> failure" where
  "LogAndThrowOpenSSLError error_msg = OpenSSLException error_msg"

text \<open>A failure that reaches the caller as a thrown exception.\<close>

fun thrown :: "failure \<Rightarrow> bool" where
  "thrown (OpenSSLException msg) = True"
| "thrown AssertionFailure = False"
| "thrown BufferOverrun = False"
| "thrown LengthError = True"

subsection \<open>The library\<close>

text \<open>The stateful library calls, as they appear in a trace.\<close>

datatype call =
  CTX_new | SealInit | SealUpdate | SealFinal | OpenInit | OpenUpdate | OpenFinal | CTX_free

text \<open>
  The OpenSSL functions the code calls. \<open>'c\<close> is \<^verbatim>\<open>EVP_CIPHER\<close>, \<open>'k\<close> is \<^verbatim>\<open>EVP_PKEY\<close>, \<open>'x\<close>
  is the state of an \<^verbatim>\<open>EVP_CIPHER_CTX\<close>.
  \<^item> \<open>EVP_get_cipherbyname\<close> returns \<open>None\<close> for \<^verbatim>\<open>NULL\<close>.
  \<^item> \<open>EVP_CIPHER_CTX_new\<close> returns \<open>None\<close> for \<^verbatim>\<open>NULL\<close>.
  \<^item> \<open>EVP_SealInit ctx cipher pub_keys rnd\<close> draws the symmetric key and the IV from the
    random bytes \<open>rnd\<close> and returns its \<^verbatim>\<open>int\<close> result, the bytes it writes to \<^verbatim>\<open>ek[i]\<close> for
    each \<open>i\<close> (whose length it stores in \<^verbatim>\<open>ekl[i]\<close>), the bytes it writes to \<^verbatim>\<open>iv\<close>, and the
    context.
  \<^item> The update functions take the memory behind the input pointer and the \<^verbatim>\<open>int inl\<close>
    that tells them how much of it to read.
  \<^item> The update and final functions return their \<^verbatim>\<open>int\<close> result and the bytes they write
    to \<^verbatim>\<open>out\<close> (whose length they store in \<^verbatim>\<open>*outl\<close>).
\<close>

record ('c, 'k, 'x) openssl =
  EVP_get_cipherbyname :: "string \<Rightarrow> 'c option"
  EVP_CIPHER_iv_length :: "'c \<Rightarrow> nat"
  EVP_CIPHER_block_size :: "'c \<Rightarrow> nat"
  EVP_PKEY_size :: "'k \<Rightarrow> nat"
  EVP_CIPHER_CTX_new :: "'x option"
  EVP_SealInit :: "'x \<Rightarrow> 'c \<Rightarrow> 'k list \<Rightarrow> bytes \<Rightarrow> int \<times> (nat \<Rightarrow> bytes) \<times> bytes \<times> 'x"
  EVP_SealUpdate :: "'x \<Rightarrow> bytes \<Rightarrow> int \<Rightarrow> int \<times> bytes \<times> 'x"
  EVP_SealFinal :: "'x \<Rightarrow> int \<times> bytes"
  EVP_OpenInit :: "'x \<Rightarrow> 'c \<Rightarrow> bytes \<Rightarrow> bytes \<Rightarrow> 'k \<Rightarrow> int \<times> 'x"
  EVP_OpenUpdate :: "'x \<Rightarrow> bytes \<Rightarrow> int \<Rightarrow> int \<times> bytes \<times> 'x"
  EVP_OpenFinal :: "'x \<Rightarrow> int \<times> bytes"

subsection \<open>Envelope::Seal\<close>

text \<open>The three output vectors of \<^verbatim>\<open>Seal\<close>, owned by the caller.\<close>

record seal_out =
  encrypted_keys_out :: "bytes list"
  iv_out :: bytes
  ciphertext_out :: bytes

text \<open>
  Lines 82 to 99: the plaintext goes through the context in one update, whose \<^verbatim>\<open>inl\<close> is
  the size of the plaintext narrowed to \<^verbatim>\<open>int\<close>; the final call flushes the last block
  to \<^verbatim>\<open>ciphertext->data() + len\<close>; the vectors are cut to the lengths the library
  reported. \<open>ekl i\<close> is \<^verbatim>\<open>encrypted_keys_len[i]\<close>, the length of the wrapped key the library
  wrote for recipient \<open>i\<close>. \<open>intact\<close> says that no write has gone behind the end of a
  vector so far. A run that is not intact goes on to the end of the function, where it
  is reported as \<open>BufferOverrun\<close>, unless a throw comes first.
\<close>

definition Seal_stream ::
  "('c, 'k, 'x) openssl \<Rightarrow> 'x \<Rightarrow> nat \<Rightarrow> (nat \<Rightarrow> nat) \<Rightarrow> bytes \<Rightarrow> bool \<Rightarrow> seal_out
    \<Rightarrow> failure option \<times> seal_out \<times> call list" where
  "Seal_stream L ctx n ekl plaintext intact out =
    (case EVP_SealUpdate L ctx plaintext (to_int (length plaintext)) of (r, w, ctx') \<Rightarrow>
      let out1 = out\<lparr>ciphertext_out := poke (ciphertext_out out) 0 w\<rparr>;
          intact1 = (intact \<and> fits (ciphertext_out out) 0 w);
          len = to_int (length w);
          ciphertext_len = len
      in
      if 1 \<noteq> r then
        (Some (LogAndThrowOpenSSLError ''''), out1, [SealUpdate, CTX_free])
      else
        (case EVP_SealFinal L ctx' of (r', w') \<Rightarrow>
          let out2 = out1\<lparr>ciphertext_out := poke_at (ciphertext_out out1) len w'\<rparr>;
              intact2 = (intact1 \<and> fits_at (ciphertext_out out1) len w');
              len' = to_int (length w');
              ciphertext_len' = int32 (ciphertext_len + len')
          in
          if 1 \<noteq> r' then
            (Some (LogAndThrowOpenSSLError ''''), out2, [SealUpdate, SealFinal, CTX_free])
          else
            let out3 = out2\<lparr>encrypted_keys_out :=
                              map (\<lambda>i. resize (ekl i) 0 (encrypted_keys_out out2 ! i)) [0..<n]\<rparr>
            in
            if ciphertext_len' < 0 then
              (Some LengthError, out3, [SealUpdate, SealFinal, CTX_free])
            else
              (if intact2 then None else Some BufferOverrun,
               out3\<lparr>ciphertext_out := resize (nat ciphertext_len') 0 (ciphertext_out out3)\<rparr>,
               [SealUpdate, SealFinal, CTX_free])))"

text \<open>
  Lines 66 to 80: the context is created and initialised for all public keys at once.
  The library writes the wrapped key of recipient \<open>i\<close> into the buffer of
  \<^verbatim>\<open>encrypted_keys->at(i)\<close> and the IV into the buffer of \<^verbatim>\<open>iv\<close>. The context is freed on
  every way out of the function once it exists (\<^verbatim>\<open>BOOST_SCOPE_EXIT\<close>). The library is given
  the list of the keys; the count \<^verbatim>\<open>npubk\<close> it receives with the array is the length of
  that list, and its result is compared with that length.
\<close>

definition SealInit_writes :: "seal_out \<Rightarrow> nat \<Rightarrow> (nat \<Rightarrow> bytes) \<Rightarrow> bytes \<Rightarrow> seal_out" where
  "SealInit_writes out n ek ivw =
    out\<lparr>encrypted_keys_out := map (\<lambda>i. poke (encrypted_keys_out out ! i) 0 (ek i)) [0..<n],
        iv_out := poke (iv_out out) 0 ivw\<rparr>"

definition Seal_init ::
  "('c, 'k, 'x) openssl \<Rightarrow> 'c \<Rightarrow> 'k list \<Rightarrow> bytes \<Rightarrow> bytes \<Rightarrow> seal_out
    \<Rightarrow> failure option \<times> seal_out \<times> call list" where
  "Seal_init L cipher pub_keys plaintext rnd out =
    (case EVP_CIPHER_CTX_new L of
      None \<Rightarrow> (Some (LogAndThrowOpenSSLError ''''), out, [CTX_new])
    | Some ctx \<Rightarrow>
        (case EVP_SealInit L ctx cipher pub_keys rnd of (r, ek, ivw, ctx') \<Rightarrow>
          let intact =
                (list_all (\<lambda>i. fits (encrypted_keys_out out ! i) 0 (ek i)) [0..<length pub_keys]
                 \<and> fits (iv_out out) 0 ivw);
              out1 = SealInit_writes out (length pub_keys) ek ivw
          in
          if int (length pub_keys) \<noteq> r then
            (Some (LogAndThrowOpenSSLError ''''), out1, [CTX_new, SealInit, CTX_free])
          else
            (case Seal_stream L ctx' (length pub_keys) (\<lambda>i. length (ek i)) plaintext intact out1
             of (res, out2, calls) \<Rightarrow> (res, out2, [CTX_new, SealInit] @ calls))))"

text \<open>
  Lines 52 to 64: the output vectors are sized before the first library call: one buffer
  of \<^verbatim>\<open>EVP_PKEY_size\<close> bytes per public key, an IV of the cipher's IV length, a ciphertext
  of the plaintext length plus one block.
\<close>

definition Seal_sizes ::
  "('c, 'k, 'x) openssl \<Rightarrow> 'c \<Rightarrow> 'k list \<Rightarrow> bytes \<Rightarrow> seal_out \<Rightarrow> seal_out" where
  "Seal_sizes L cipher pub_keys plaintext out =
    (let out1 = out\<lparr>encrypted_keys_out :=
                      resize (length pub_keys) [] (encrypted_keys_out out),
                    iv_out := resize (EVP_CIPHER_iv_length L cipher) 0 (iv_out out),
                    ciphertext_out :=
                      resize (length plaintext + EVP_CIPHER_block_size L cipher) 0
                        (ciphertext_out out)\<rparr>
     in out1\<lparr>encrypted_keys_out :=
                map (\<lambda>i. resize (EVP_PKEY_size L (pub_keys ! i)) 0
                           (encrypted_keys_out out1 ! i))
                  [0..<length pub_keys]\<rparr>)"

text \<open>
  Lines 37 to 100: the assertion on the number of keys, the lookup of the cipher, the
  sizing of the output vectors, and the rest. (The first assertion is about null
  pointers; the output objects of the model always exist.)
\<close>

definition Seal ::
  "('c, 'k, 'x) openssl \<Rightarrow> string \<Rightarrow> 'k list \<Rightarrow> bytes \<Rightarrow> bytes \<Rightarrow> seal_out
    \<Rightarrow> failure option \<times> seal_out \<times> call list" where
  "Seal L cipher_name pub_keys plaintext rnd out =
    (if \<not> length pub_keys > 0 then (Some AssertionFailure, out, [])
     else
       (case EVP_get_cipherbyname L cipher_name of
         None \<Rightarrow>
           (Some (LogAndThrowOpenSSLError
                    (''Envelope::Seal: Unknown cipher '' @ [CHR 0x27] @ cipher_name @ [CHR 0x27])),
            out, [])
       | Some cipher \<Rightarrow>
           Seal_init L cipher pub_keys plaintext rnd
             (Seal_sizes L cipher pub_keys plaintext out)))"

subsection \<open>Envelope::Open\<close>

text \<open>
  Lines 157 to 207, the overload that takes the resolved cipher: \<open>plaintext\<close> is the
  caller's output buffer, whose capacity is its length. The result is the failure or the
  returned plaintext length, the buffer afterwards, the bytes the library has written
  behind the end of the buffer, and the library calls made. The assertion of line 204
  compares \<^verbatim>\<open>plaintext_len\<close> with a \<^verbatim>\<open>size_t\<close>, so a negative \<^verbatim>\<open>plaintext_len\<close> counts as a
  huge number and fails it. A failed assertion aborts the program: the context is not
  freed.
\<close>

definition Open_cipher ::
  "('c, 'k, 'x) openssl \<Rightarrow> 'c \<Rightarrow> 'k \<Rightarrow> bytes \<Rightarrow> bytes \<Rightarrow> bytes \<Rightarrow> bytes
    \<Rightarrow> (failure + nat) \<times> bytes \<times> bytes \<times> call list" where
  "Open_cipher L cipher priv_key ciphertext encrypted_key iv plaintext =
    (if \<not> length iv = EVP_CIPHER_iv_length L cipher then
       (Inl AssertionFailure, plaintext, [], [])
     else
       (case EVP_CIPHER_CTX_new L of
         None \<Rightarrow> (Inl (LogAndThrowOpenSSLError ''''), plaintext, [], [CTX_new])
       | Some ctx \<Rightarrow>
           (case EVP_OpenInit L ctx cipher encrypted_key iv priv_key of (r, ctx1) \<Rightarrow>
             if 0 = r then
               (Inl (LogAndThrowOpenSSLError ''''), plaintext, [], [CTX_new, OpenInit, CTX_free])
             else
               (case EVP_OpenUpdate L ctx1 ciphertext (to_int (length ciphertext)) of
                 (r1, w, ctx2) \<Rightarrow>
                   let p1 = poke plaintext 0 w;
                       past1 = spill plaintext 0 w;
                       len = to_int (length w);
                       plaintext_len = len
                   in
                   if 1 \<noteq> r1 then
                     (Inl (LogAndThrowOpenSSLError ''''), p1, past1,
                      [CTX_new, OpenInit, OpenUpdate, CTX_free])
                   else
                     (case EVP_OpenFinal L ctx2 of (r2, w') \<Rightarrow>
                       let p2 = poke_at p1 len w';
                           past2 = past1 @ spill_at p1 len w';
                           len' = to_int (length w');
                           plaintext_len' = int32 (plaintext_len + len')
                       in
                       if 1 \<noteq> r2 then
                         (Inl (LogAndThrowOpenSSLError ''''), p2, past2,
                          [CTX_new, OpenInit, OpenUpdate, OpenFinal, CTX_free])
                       else if \<not> (0 \<le> plaintext_len' \<and> nat plaintext_len' \<le> length p2) then
                         (Inl AssertionFailure, p2, past2,
                          [CTX_new, OpenInit, OpenUpdate, OpenFinal])
                       else
                         (Inr (nat plaintext_len'), p2, past2,
                          [CTX_new, OpenInit, OpenUpdate, OpenFinal, CTX_free]))))))"

text \<open>Lines 115 to 126, the overload with a cipher name and a buffer of the caller's.\<close>

definition Open_buffer ::
  "('c, 'k, 'x) openssl \<Rightarrow> string \<Rightarrow> 'k \<Rightarrow> bytes \<Rightarrow> bytes \<Rightarrow> bytes \<Rightarrow> bytes
    \<Rightarrow> (failure + nat) \<times> bytes \<times> call list" where
  "Open_buffer L cipher_name priv_key ciphertext encrypted_key iv plaintext =
    (case EVP_get_cipherbyname L cipher_name of
      None \<Rightarrow>
        (Inl (LogAndThrowOpenSSLError
                (''Envelope::Open: Unknown cipher '' @ [CHR 0x27] @ cipher_name @ [CHR 0x27])),
         plaintext, [])
    | Some cipher \<Rightarrow>
        (case Open_cipher L cipher priv_key ciphertext encrypted_key iv plaintext of
          (res, plaintext', past, calls) \<Rightarrow> (res, plaintext', calls)))"

text \<open>
  Lines 140 to 155, the overload that fills a vector of the caller's: the vector is sized
  to the ciphertext length plus one block, handed to the overload above as a buffer, and
  cut to the returned length.
\<close>

definition Open_vector ::
  "('c, 'k, 'x) openssl \<Rightarrow> string \<Rightarrow> 'k \<Rightarrow> bytes \<Rightarrow> bytes \<Rightarrow> bytes \<Rightarrow> bytes
    \<Rightarrow> failure option \<times> bytes \<times> call list" where
  "Open_vector L cipher_name priv_key ciphertext encrypted_key iv plaintext =
    (case EVP_get_cipherbyname L cipher_name of
      None \<Rightarrow>
        (Some (LogAndThrowOpenSSLError
                 (''Envelope: Unknown cipher '' @ [CHR 0x27] @ cipher_name @ [CHR 0x27])),
         plaintext, [])
    | Some cipher \<Rightarrow>
        let v = resize (length ciphertext + EVP_CIPHER_block_size L cipher) 0 plaintext in
        (case Open_cipher L cipher priv_key ciphertext encrypted_key iv v of
          (Inl e, v', past, calls) \<Rightarrow> (Some e, v', calls)
        | (Inr plaintext_len, v', past, calls) \<Rightarrow> (None, resize plaintext_len 0 v', calls)))"

subsection \<open>What the code expects of the library\<close>

text \<open>
  The cryptography is the library's. The properties below are parts of its contract for
  one cipher; each is a hypothesis of the theorems that need it, and none of them is
  assumed of every cipher. \<open>keypair pub priv\<close> says that \<open>priv\<close> is the private key of the
  public key \<open>pub\<close>.
\<close>

text \<open>
  Decryption inverts encryption for this cipher: for a plaintext whose size plus one
  block fits an \<^verbatim>\<open>int\<close>, what \<^verbatim>\<open>EVP_SealInit\<close> wraps for recipient \<open>i\<close> and what the update and
  final calls emit is turned back into the plaintext by the open calls under the private
  key of recipient \<open>i\<close>; and \<^verbatim>\<open>EVP_SealInit\<close> writes a whole IV. A cipher that needs an
  authentication tag for decryption does not have this property: the code passes no tag.
\<close>

definition seal_open_inverse ::
  "('c, 'k, 'x) openssl \<Rightarrow> ('k \<Rightarrow> 'k \<Rightarrow> bool) \<Rightarrow> 'c \<Rightarrow> bool" where
  "seal_open_inverse L keypair cipher \<longleftrightarrow>
    (\<forall>ctx pub_keys rnd plaintext ctx0 i priv_key.
      i < length pub_keys \<and> keypair (pub_keys ! i) priv_key \<and>
      length plaintext + EVP_CIPHER_block_size L cipher < 2 ^ 31 \<longrightarrow>
      (case EVP_SealInit L ctx cipher pub_keys rnd of (r, ek, ivw, ctx1) \<Rightarrow>
       case EVP_SealUpdate L ctx1 plaintext (int (length plaintext)) of (r1, w, ctx2) \<Rightarrow>
       case EVP_SealFinal L ctx2 of (r2, w') \<Rightarrow>
         r = int (length pub_keys) \<and> r1 = 1 \<and> r2 = 1 \<longrightarrow>
         length ivw = EVP_CIPHER_iv_length L cipher \<and>
         (case EVP_OpenInit L ctx0 cipher (ek i) ivw priv_key of (q, dx1) \<Rightarrow>
          case EVP_OpenUpdate L dx1 (w @ w') (int (length (w @ w'))) of (q1, p, dx2) \<Rightarrow>
          case EVP_OpenFinal L dx2 of (q2, p') \<Rightarrow>
            q \<noteq> 0 \<and> q1 = 1 \<and> q2 = 1 \<and> p @ p' = plaintext)))"

text \<open>
  Room for the output of decryption with this cipher: one update never emits more than
  the ciphertext length plus one block, nor do the update and the final call together,
  and the two lengths the library reports through \<^verbatim>\<open>int *outl\<close> add up to an \<^verbatim>\<open>int\<close>.
\<close>

definition open_output_bounded :: "('c, 'k, 'x) openssl \<Rightarrow> 'c \<Rightarrow> bool" where
  "open_output_bounded L cipher \<longleftrightarrow>
    (\<forall>ctx encrypted_key iv priv_key ciphertext.
      (case EVP_OpenInit L ctx cipher encrypted_key iv priv_key of (q, dx1) \<Rightarrow>
       case EVP_OpenUpdate L dx1 ciphertext (to_int (length ciphertext)) of (q1, p, dx2) \<Rightarrow>
       case EVP_OpenFinal L dx2 of (q2, p') \<Rightarrow>
         q \<noteq> 0 \<longrightarrow>
         length p \<le> length ciphertext + EVP_CIPHER_block_size L cipher \<and>
         length p < 2 ^ 31 \<and>
         (q1 = 1 \<longrightarrow>
           length p + length p' \<le> length ciphertext + EVP_CIPHER_block_size L cipher \<and>
           length p + length p' < 2 ^ 31)))"

text \<open>
  A block cipher with padding: a plaintext whose size plus one block fits an \<^verbatim>\<open>int\<close> is
  filled up to the next multiple of the block size (a whole block of padding when it
  already is one).
\<close>

definition pads_to_block :: "('c, 'k, 'x) openssl \<Rightarrow> 'c \<Rightarrow> bool" where
  "pads_to_block L cipher \<longleftrightarrow>
    0 < EVP_CIPHER_block_size L cipher \<and>
    (\<forall>ctx pub_keys rnd plaintext.
      length plaintext + EVP_CIPHER_block_size L cipher < 2 ^ 31 \<longrightarrow>
      (case EVP_SealInit L ctx cipher pub_keys rnd of (r, ek, ivw, ctx1) \<Rightarrow>
       case EVP_SealUpdate L ctx1 plaintext (int (length plaintext)) of (r1, w, ctx2) \<Rightarrow>
       case EVP_SealFinal L ctx2 of (r2, w') \<Rightarrow>
         r = int (length pub_keys) \<and> r1 = 1 \<and> r2 = 1 \<longrightarrow>
         length w + length w' =
           (length plaintext div EVP_CIPHER_block_size L cipher + 1)
             * EVP_CIPHER_block_size L cipher))"

text \<open>
  The bytes \<^verbatim>\<open>EVP_SealInit\<close> writes to \<^verbatim>\<open>ek[i]\<close> in a call of \<^verbatim>\<open>Seal\<close>: the symmetric key
  wrapped under \<^verbatim>\<open>pub_keys[i]\<close>.
\<close>

definition wrapped_key ::
  "('c, 'k, 'x) openssl \<Rightarrow> string \<Rightarrow> 'k list \<Rightarrow> bytes \<Rightarrow> nat \<Rightarrow> bytes" where
  "wrapped_key L cipher_name pub_keys rnd i =
    (case (EVP_get_cipherbyname L cipher_name, EVP_CIPHER_CTX_new L) of
      (Some cipher, Some ctx) \<Rightarrow>
        (case EVP_SealInit L ctx cipher pub_keys rnd of (r, ek, ivw, ctx') \<Rightarrow> ek i)
    | _ \<Rightarrow> [])"

subsection \<open>A small library to run the code on\<close>

text \<open>
  An instance of the library record, small enough to evaluate: one cipher, \<^verbatim>\<open>xor-8\<close>, with
  blocks and IVs of 8 bytes and a key of one byte. A block is encrypted by xor with a mask
  made of the key and the IV, after padding the plaintext as PKCS#7 does. A key pair is
  \<open>Pub n\<close> and \<open>Priv n\<close>; the key \<open>k\<close> wrapped for \<open>Pub n\<close> is the two bytes \<open>n\<close> and
  \<open>k XOR n\<close>, in a buffer of \<^verbatim>\<open>EVP_PKEY_size\<close> 4. \<open>Broken\<close> is a key the library cannot
  use. The update calls read the first \<^verbatim>\<open>inl\<close> bytes behind the input pointer and fail
  for a negative \<^verbatim>\<open>inl\<close>.
\<close>

datatype toy_cipher = Xor8

datatype toy_key = Pub byte | Priv byte | Broken

datatype toy_ctx = Fresh | Enc byte bytes | Dec byte bytes | Dead

fun toy_keypair :: "toy_key \<Rightarrow> toy_key \<Rightarrow> bool" where
  "toy_keypair (Pub n) (Priv m) = (n = m)"
| "toy_keypair _ _ = False"

fun is_pub :: "toy_key \<Rightarrow> bool" where
  "is_pub (Pub n) = True"
| "is_pub _ = False"

fun toy_wrap :: "toy_key \<Rightarrow> byte \<Rightarrow> bytes" where
  "toy_wrap (Pub n) k = [n, k XOR n]"
| "toy_wrap _ k = []"

fun toy_unwrap :: "toy_key \<Rightarrow> bytes \<Rightarrow> byte option" where
  "toy_unwrap (Priv m) [n, e] = (if n = m then Some (e XOR m) else None)"
| "toy_unwrap _ _ = None"

definition toy_mask :: "byte \<Rightarrow> bytes \<Rightarrow> byte" where
  "toy_mask k iv = foldr (XOR) iv k"

definition toy_crypt :: "byte \<Rightarrow> bytes \<Rightarrow> bytes" where
  "toy_crypt m bs = map (\<lambda>b. b XOR m) bs"

definition toy_SealInit ::
  "toy_ctx \<Rightarrow> toy_cipher \<Rightarrow> toy_key list \<Rightarrow> bytes \<Rightarrow> int \<times> (nat \<Rightarrow> bytes) \<times> bytes \<times> toy_ctx" where
  "toy_SealInit ctx cipher pub_keys rnd =
    (let k = hd (resize 1 0 rnd);
         ivw = resize 8 0 (drop 1 rnd);
         good = takeWhile is_pub pub_keys;
         ek = (\<lambda>i. if i < length good then toy_wrap (good ! i) k else [])
     in if length good = length pub_keys
        then (int (length pub_keys), ek, ivw, Enc (toy_mask k ivw) [])
        else (- 1, ek, ivw, Dead))"

fun toy_SealUpdate :: "toy_ctx \<Rightarrow> bytes \<Rightarrow> int \<Rightarrow> int \<times> bytes \<times> toy_ctx" where
  "toy_SealUpdate (Enc m pending) inp inl =
    (if inl < 0 then (0, [], Enc m pending)
     else
       let d = pending @ take (nat inl) inp; n = (length d div 8) * 8
       in (1, toy_crypt m (take n d), Enc m (drop n d)))"
| "toy_SealUpdate _ inp inl = (0, [], Dead)"

definition toy_pad :: "bytes \<Rightarrow> bytes" where
  "toy_pad pending =
    (let p = 8 - length pending in pending @ replicate p (of_nat p))"

fun toy_SealFinal :: "toy_ctx \<Rightarrow> int \<times> bytes" where
  "toy_SealFinal (Enc m pending) = (1, toy_crypt m (toy_pad pending))"
| "toy_SealFinal _ = (0, [])"

definition toy_OpenInit ::
  "toy_ctx \<Rightarrow> toy_cipher \<Rightarrow> bytes \<Rightarrow> bytes \<Rightarrow> toy_key \<Rightarrow> int \<times> toy_ctx" where
  "toy_OpenInit ctx cipher ek iv priv_key =
    (case toy_unwrap priv_key ek of
      None \<Rightarrow> (0, Dead)
    | Some k \<Rightarrow> (1, Dec (toy_mask k iv) []))"

fun toy_OpenUpdate :: "toy_ctx \<Rightarrow> bytes \<Rightarrow> int \<Rightarrow> int \<times> bytes \<times> toy_ctx" where
  "toy_OpenUpdate (Dec m held) inp inl =
    (if inl < 0 then (0, [], Dec m held)
     else
       let d = held @ take (nat inl) inp;
           n = (if length d mod 8 = 0 then length d - 8 else (length d div 8) * 8)
       in (1, toy_crypt m (take n d), Dec m (drop n d)))"
| "toy_OpenUpdate _ inp inl = (0, [], Dead)"

fun toy_OpenFinal :: "toy_ctx \<Rightarrow> int \<times> bytes" where
  "toy_OpenFinal (Dec m held) =
    (if length held = 8 then
       (let blk = toy_crypt m held; p = unat (last blk)
        in if 1 \<le> p \<and> p \<le> 8 \<and> drop (8 - p) blk = replicate p (of_nat p)
           then (1, take (8 - p) blk)
           else (0, []))
     else (0, []))"
| "toy_OpenFinal _ = (0, [])"

definition toy :: "(toy_cipher, toy_key, toy_ctx) openssl" where
  "toy =
    \<lparr>EVP_get_cipherbyname = (\<lambda>name. if name = ''xor-8'' then Some Xor8 else None),
     EVP_CIPHER_iv_length = (\<lambda>c. 8),
     EVP_CIPHER_block_size = (\<lambda>c. 8),
     EVP_PKEY_size = (\<lambda>k. 4),
     EVP_CIPHER_CTX_new = Some Fresh,
     EVP_SealInit = toy_SealInit,
     EVP_SealUpdate = toy_SealUpdate,
     EVP_SealFinal = toy_SealFinal,
     EVP_OpenInit = toy_OpenInit,
     EVP_OpenUpdate = toy_OpenUpdate,
     EVP_OpenFinal = toy_OpenFinal\<rparr>"

text \<open>Output vectors that are empty before the call.\<close>

definition empty_out :: seal_out where
  "empty_out = \<lparr>encrypted_keys_out = [], iv_out = [], ciphertext_out = []\<rparr>"

text \<open>
  Variants of the small library in which one step of sealing fails: no context can be
  created; the update reports failure; the final call writes three bytes and reports
  failure.
\<close>

definition toy_no_ctx :: "(toy_cipher, toy_key, toy_ctx) openssl" where
  "toy_no_ctx = toy\<lparr>EVP_CIPHER_CTX_new := None\<rparr>"

definition toy_update_fails :: "(toy_cipher, toy_key, toy_ctx) openssl" where
  "toy_update_fails = toy\<lparr>EVP_SealUpdate := (\<lambda>ctx inp inl. (0, [], Dead))\<rparr>"

definition toy_final_fails :: "(toy_cipher, toy_key, toy_ctx) openssl" where
  "toy_final_fails = toy\<lparr>EVP_SealFinal := (\<lambda>ctx. (0, [1, 2, 3]))\<rparr>"

text \<open>
  A variant with a cipher that authenticates, \<^verbatim>\<open>xor-8-gcm\<close>: decryption needs the tag that
  encryption produced. \<^verbatim>\<open>Seal\<close> never fetches the tag and \<^verbatim>\<open>Open\<close> never sets it, so the
  final call of decryption has nothing to verify against and reports failure.
\<close>

definition toy_aead :: "(toy_cipher, toy_key, toy_ctx) openssl" where
  "toy_aead =
    toy\<lparr>EVP_get_cipherbyname := (\<lambda>name. if name = ''xor-8-gcm'' then Some Xor8 else None),
        EVP_OpenFinal := (\<lambda>ctx. (0, []))\<rparr>"

text \<open>
  A variant with a stream cipher, \<^verbatim>\<open>xor-stream\<close>, and a key transport that cannot tell a
  wrong private key: the wrapped key is the one byte \<open>k XOR n\<close>, and unwrapping with
  \<open>Priv m\<close> gives \<open>k XOR n XOR m\<close>. There is no padding to check, so decryption with the
  wrong key succeeds and yields other bytes.
\<close>

fun stream_wrap :: "toy_key \<Rightarrow> byte \<Rightarrow> bytes" where
  "stream_wrap (Pub n) k = [k XOR n]"
| "stream_wrap _ k = []"

definition stream_SealInit ::
  "toy_ctx \<Rightarrow> toy_cipher \<Rightarrow> toy_key list \<Rightarrow> bytes \<Rightarrow> int \<times> (nat \<Rightarrow> bytes) \<times> bytes \<times> toy_ctx" where
  "stream_SealInit ctx cipher pub_keys rnd =
    (let k = hd (resize 1 0 rnd);
         ivw = resize 8 0 (drop 1 rnd);
         good = takeWhile is_pub pub_keys;
         ek = (\<lambda>i. if i < length good then stream_wrap (good ! i) k else [])
     in if length good = length pub_keys
        then (int (length pub_keys), ek, ivw, Enc (toy_mask k ivw) [])
        else (- 1, ek, ivw, Dead))"

fun stream_SealUpdate :: "toy_ctx \<Rightarrow> bytes \<Rightarrow> int \<Rightarrow> int \<times> bytes \<times> toy_ctx" where
  "stream_SealUpdate (Enc m pending) inp inl =
    (if inl < 0 then (0, [], Enc m pending)
     else (1, toy_crypt m (take (nat inl) inp), Enc m []))"
| "stream_SealUpdate _ inp inl = (0, [], Dead)"

fun stream_SealFinal :: "toy_ctx \<Rightarrow> int \<times> bytes" where
  "stream_SealFinal (Enc m pending) = (1, [])"
| "stream_SealFinal _ = (0, [])"

fun stream_OpenInit ::
  "toy_ctx \<Rightarrow> toy_cipher \<Rightarrow> bytes \<Rightarrow> bytes \<Rightarrow> toy_key \<Rightarrow> int \<times> toy_ctx" where
  "stream_OpenInit ctx cipher [e] iv (Priv m) = (1, Dec (toy_mask (e XOR m) iv) [])"
| "stream_OpenInit ctx cipher ek iv priv_key = (0, Dead)"

fun stream_OpenUpdate :: "toy_ctx \<Rightarrow> bytes \<Rightarrow> int \<Rightarrow> int \<times> bytes \<times> toy_ctx" where
  "stream_OpenUpdate (Dec m held) inp inl =
    (if inl < 0 then (0, [], Dec m held)
     else (1, toy_crypt m (take (nat inl) inp), Dec m []))"
| "stream_OpenUpdate _ inp inl = (0, [], Dead)"

fun stream_OpenFinal :: "toy_ctx \<Rightarrow> int \<times> bytes" where
  "stream_OpenFinal (Dec m held) = (1, [])"
| "stream_OpenFinal _ = (0, [])"

definition toy_stream :: "(toy_cipher, toy_key, toy_ctx) openssl" where
  "toy_stream =
    \<lparr>EVP_get_cipherbyname = (\<lambda>name. if name = ''xor-stream'' then Some Xor8 else None),
     EVP_CIPHER_iv_length = (\<lambda>c. 8),
     EVP_CIPHER_block_size = (\<lambda>c. 1),
     EVP_PKEY_size = (\<lambda>k. 4),
     EVP_CIPHER_CTX_new = Some Fresh,
     EVP_SealInit = stream_SealInit,
     EVP_SealUpdate = stream_SealUpdate,
     EVP_SealFinal = stream_SealFinal,
     EVP_OpenInit = stream_OpenInit,
     EVP_OpenUpdate = stream_OpenUpdate,
     EVP_OpenFinal = stream_OpenFinal\<rparr>"

text \<open>A plaintext of \<open>2^32 + 5\<close> bytes, all zero.\<close>

definition long_plaintext :: bytes where
  "long_plaintext = replicate (2 ^ 32 + 5) 0"

section \<open>Properties\<close>

lemma length_resize: "length (resize n d v) = n"
  by (simp add: resize_def)

lemma resize_le: "n \<le> length v \<Longrightarrow> resize n d v = take n v"
  by (simp add: resize_def)

lemma length_poke: "length (poke buf off w) = length buf"
  by (simp add: poke_def)

lemma length_poke_at: "length (poke_at buf len w) = length buf"
  by (simp add: poke_at_def length_poke)

lemma poke_fits: "fits buf off w \<Longrightarrow> poke buf off w = take off buf @ w @ drop (off + length w) buf"
  by (simp add: fits_def poke_def)

lemma spill_fits: "fits buf off w \<Longrightarrow> spill buf off w = []"
  by (simp add: fits_def spill_def)

lemma resize_poke: "fits buf 0 w \<Longrightarrow> resize (length w) d (poke buf 0 w) = w"
  by (simp add: poke_fits) (simp add: resize_def)

lemma poke_poke:
  "fits buf 0 w \<Longrightarrow> fits (poke buf 0 w) (length w) w' \<Longrightarrow>
   poke (poke buf 0 w) (length w) w' = w @ w' @ drop (length w + length w') buf"
  by (simp add: poke_fits) (simp add: fits_def add.commute)

lemma resize_poke_poke:
  "fits buf 0 w \<Longrightarrow> fits (poke buf 0 w) (length w) w' \<Longrightarrow>
   resize (length w + length w') d (poke (poke buf 0 w) (length w) w') = w @ w'"
  by (simp add: poke_poke) (simp add: resize_def)

lemma int32_id: "- (2 ^ 31) \<le> i \<Longrightarrow> i < 2 ^ 31 \<Longrightarrow> int32 i = i"
  by (simp add: int32_def)

lemma int32_range: "- (2 ^ 31) \<le> int32 i \<and> int32 i < 2 ^ 31"
proof -
  have "0 \<le> (i + 2 ^ 31) mod (2 ^ 32 :: int)" and "(i + 2 ^ 31) mod (2 ^ 32 :: int) < 2 ^ 32"
    by simp_all
  then show ?thesis
    by (simp add: int32_def)
qed

lemma to_int_id: "n < 2 ^ 31 \<Longrightarrow> to_int n = int n"
  by (simp add: to_int_def int32_id)

lemma to_int_le: "to_int n \<le> int n"
proof -
  have "(int n + 2 ^ 31) mod 2 ^ 32 \<le> int n + 2 ^ 31"
    by (rule zmod_le_nonneg_dividend) simp
  then show ?thesis
    by (simp add: to_int_def int32_def)
qed

lemma to_int_neg: "to_int n < 0 \<Longrightarrow> 2 ^ 31 \<le> n"
proof (rule ccontr)
  assume a: "to_int n < 0" and "\<not> 2 ^ 31 \<le> n"
  then have "n < 2 ^ 31" by simp
  then have "to_int n = int n" by (rule to_int_id)
  with a show False by simp
qed

lemma int32_sum_nonneg:
  assumes "0 \<le> a" and "a < 2 ^ 31" and "- (2 ^ 31) \<le> b" and "b < 2 ^ 31"
    and "0 \<le> int32 (a + b)"
  shows "int32 (a + b) = a + b"
proof (cases "a + b < 2 ^ 31")
  case True
  with assms show ?thesis by (simp add: int32_id)
next
  case False
  with assms have "0 \<le> a + b - 2 ^ 31" and "a + b - 2 ^ 31 < 2 ^ 32"
    by simp_all
  then have "(a + b - 2 ^ 31) mod 2 ^ 32 = a + b - 2 ^ 31"
    by simp
  moreover have "(a + b + 2 ^ 31) mod 2 ^ 32 = (a + b - 2 ^ 31) mod (2 ^ 32 :: int)"
  proof -
    have "a + b + 2 ^ 31 = (a + b - 2 ^ 31) + 1 * 2 ^ 32" by simp
    then show ?thesis by (metis mod_mult_self1)
  qed
  ultimately have "int32 (a + b) = a + b - 2 ^ 32"
    by (simp add: int32_def)
  with assms(2,4,5) show ?thesis by simp
qed

lemma Seal_stream_success:
  assumes "Seal_stream L ctx n ekl plaintext intact out = (None, out', calls)"
  shows "\<exists>w ctx2 w'.
    EVP_SealUpdate L ctx plaintext (to_int (length plaintext)) = (1, w, ctx2) \<and>
    EVP_SealFinal L ctx2 = (1, w') \<and>
    intact \<and>
    (length (ciphertext_out out) < 2 ^ 31 \<longrightarrow>
       length w + length w' \<le> length (ciphertext_out out) \<and> ciphertext_out out' = w @ w') \<and>
    encrypted_keys_out out' = map (\<lambda>i. resize (ekl i) 0 (encrypted_keys_out out ! i)) [0..<n] \<and>
    iv_out out' = iv_out out \<and>
    calls = [SealUpdate, SealFinal, CTX_free]"
proof -
  let ?ct = "ciphertext_out out"
  obtain r w ctx2 where u: "EVP_SealUpdate L ctx plaintext (to_int (length plaintext)) = (r, w, ctx2)"
    by (cases "EVP_SealUpdate L ctx plaintext (to_int (length plaintext))") auto
  obtain r' w' where f: "EVP_SealFinal L ctx2 = (r', w')"
    by (cases "EVP_SealFinal L ctx2") auto
  let ?len = "to_int (length w)"
  let ?cl = "int32 (?len + to_int (length w'))"
  from assms u have r: "r = 1"
    by (auto simp: Seal_stream_def Let_def LogAndThrowOpenSSLError_def split: if_splits prod.splits)
  from assms u f r have r': "r' = 1"
    by (auto simp: Seal_stream_def Let_def LogAndThrowOpenSSLError_def split: if_splits)
  from assms u f r r' have nn: "\<not> ?cl < 0"
    by (auto simp: Seal_stream_def Let_def split: if_splits)
  from assms u f r r' nn have i: "intact" and f1: "fits ?ct 0 w"
    and f2: "fits_at (poke ?ct 0 w) ?len w'"
    by (auto simp: Seal_stream_def Let_def split: if_splits)
  from assms u f r r' nn i f1 f2 have
    o: "out' = out\<lparr>ciphertext_out := resize (nat ?cl) 0 (poke_at (poke ?ct 0 w) ?len w'),
                   encrypted_keys_out :=
                     map (\<lambda>i. resize (ekl i) 0 (encrypted_keys_out out ! i)) [0..<n]\<rparr>"
    and c: "calls = [SealUpdate, SealFinal, CTX_free]"
    by (auto simp: Seal_stream_def Let_def)
  have b: "length w + length w' \<le> length ?ct \<and> ciphertext_out out' = w @ w'"
    if small: "length ?ct < 2 ^ 31"
  proof -
    from f1 small have lw: "length w < 2 ^ 31"
      by (simp add: fits_def)
    then have len: "?len = int (length w)"
      by (rule to_int_id)
    from f2 len have f2': "fits (poke ?ct 0 w) (length w) w'"
      by (simp add: fits_at_def)
    then have le: "length w + length w' \<le> length ?ct"
      by (simp add: fits_def length_poke)
    with small have "length w' < 2 ^ 31" and s: "length w + length w' < 2 ^ 31"
      by simp_all
    then have len': "to_int (length w') = int (length w')"
      by (simp add: to_int_id)
    from s have "int (length w) + int (length w') < 2 ^ 31"
      by (metis of_nat_add of_nat_less_iff of_nat_numeral of_nat_power)
    then have "?cl = int (length w + length w')"
      by (simp add: len len' int32_id)
    then have "nat ?cl = length w + length w'"
      by simp
    with o len f1 f2' have "ciphertext_out out' = w @ w'"
      by (simp add: poke_at_def resize_poke_poke del: of_nat_add)
    with le show ?thesis by simp
  qed
  from u f r r' i b o c show ?thesis
    by simp
qed

lemma Seal_init_success:
  assumes "Seal_init L cipher pub_keys plaintext rnd out = (None, out', calls)"
  shows "\<exists>ctx ek ivw ctx1 w ctx2 w'.
    EVP_CIPHER_CTX_new L = Some ctx \<and>
    EVP_SealInit L ctx cipher pub_keys rnd = (int (length pub_keys), ek, ivw, ctx1) \<and>
    EVP_SealUpdate L ctx1 plaintext (to_int (length plaintext)) = (1, w, ctx2) \<and>
    EVP_SealFinal L ctx2 = (1, w') \<and>
    (\<forall>i<length pub_keys. length (ek i) \<le> length (encrypted_keys_out out ! i)) \<and>
    length ivw \<le> length (iv_out out) \<and>
    (length (ciphertext_out out) < 2 ^ 31 \<longrightarrow>
       length w + length w' \<le> length (ciphertext_out out) \<and> ciphertext_out out' = w @ w') \<and>
    encrypted_keys_out out' = map ek [0..<length pub_keys] \<and>
    iv_out out' = ivw @ drop (length ivw) (iv_out out) \<and>
    calls = [CTX_new, SealInit, SealUpdate, SealFinal, CTX_free]"
proof -
  from assms obtain ctx where n: "EVP_CIPHER_CTX_new L = Some ctx"
    by (cases "EVP_CIPHER_CTX_new L") (auto simp: Seal_init_def)
  obtain r ek ivw ctx1 where i: "EVP_SealInit L ctx cipher pub_keys rnd = (r, ek, ivw, ctx1)"
    by (cases "EVP_SealInit L ctx cipher pub_keys rnd") auto
  let ?n = "length pub_keys"
  from assms n i have r: "r = int ?n"
    by (auto simp: Seal_init_def Let_def split: if_splits)
  let ?intact = "list_all (\<lambda>i. fits (encrypted_keys_out out ! i) 0 (ek i)) [0..<?n]
                 \<and> fits (iv_out out) 0 ivw"
  let ?out1 = "out\<lparr>encrypted_keys_out :=
                   map (\<lambda>i. poke (encrypted_keys_out out ! i) 0 (ek i)) [0..<?n],
                 iv_out := poke (iv_out out) 0 ivw\<rparr>"
  from assms n i r obtain calls' where
    s: "Seal_stream L ctx1 ?n (\<lambda>i. length (ek i)) plaintext ?intact ?out1 = (None, out', calls')"
    and c: "calls = [CTX_new, SealInit] @ calls'"
    by (auto simp: Seal_init_def SealInit_writes_def Let_def split: prod.splits)
  from Seal_stream_success [OF s] obtain w ctx2 w' where
    u: "EVP_SealUpdate L ctx1 plaintext (to_int (length plaintext)) = (1, w, ctx2)"
    and f: "EVP_SealFinal L ctx2 = (1, w')"
    and int: "?intact"
    and b: "length (ciphertext_out ?out1) < 2 ^ 31 \<longrightarrow>
       length w + length w' \<le> length (ciphertext_out ?out1) \<and> ciphertext_out out' = w @ w'"
    and ks: "encrypted_keys_out out' =
      map (\<lambda>i. resize (length (ek i)) 0 (encrypted_keys_out ?out1 ! i)) [0..<?n]"
    and iv: "iv_out out' = iv_out ?out1"
    and c': "calls' = [SealUpdate, SealFinal, CTX_free]"
    by blast
  from int have fk': "\<forall>i<?n. fits (encrypted_keys_out out ! i) 0 (ek i)"
    and fi: "fits (iv_out out) 0 ivw"
    by (simp_all add: list_all_iff)
  from fk' have kb: "\<forall>i<?n. length (ek i) \<le> length (encrypted_keys_out out ! i)"
    by (simp add: fits_def)
  from ks fk' have ks': "encrypted_keys_out out' = map ek [0..<?n]"
    by (simp add: resize_poke)
  from iv fi have iv': "iv_out out' = ivw @ drop (length ivw) (iv_out out)"
    by (simp add: poke_fits)
  from fi have ib: "length ivw \<le> length (iv_out out)"
    by (simp add: fits_def)
  from b have b': "length (ciphertext_out out) < 2 ^ 31 \<longrightarrow>
       length w + length w' \<le> length (ciphertext_out out) \<and> ciphertext_out out' = w @ w'"
    by simp
  from n i r u f kb ib b' ks' iv' c c' show ?thesis
    by simp
qed

lemma Seal_success:
  assumes "Seal L cipher_name pub_keys plaintext rnd out = (None, out', calls)"
  shows "\<exists>cipher ctx ek ivw ctx1 w ctx2 w'.
    0 < length pub_keys \<and>
    EVP_get_cipherbyname L cipher_name = Some cipher \<and>
    EVP_CIPHER_CTX_new L = Some ctx \<and>
    EVP_SealInit L ctx cipher pub_keys rnd = (int (length pub_keys), ek, ivw, ctx1) \<and>
    EVP_SealUpdate L ctx1 plaintext (to_int (length plaintext)) = (1, w, ctx2) \<and>
    EVP_SealFinal L ctx2 = (1, w') \<and>
    (\<forall>i<length pub_keys. length (ek i) \<le> EVP_PKEY_size L (pub_keys ! i)) \<and>
    length ivw \<le> EVP_CIPHER_iv_length L cipher \<and>
    (length plaintext + EVP_CIPHER_block_size L cipher < 2 ^ 31 \<longrightarrow>
       length w + length w' \<le> length plaintext + EVP_CIPHER_block_size L cipher \<and>
       ciphertext_out out' = w @ w') \<and>
    encrypted_keys_out out' = map ek [0..<length pub_keys] \<and>
    length (iv_out out') = EVP_CIPHER_iv_length L cipher \<and>
    take (length ivw) (iv_out out') = ivw \<and>
    calls = [CTX_new, SealInit, SealUpdate, SealFinal, CTX_free]"
proof -
  from assms have p: "0 < length pub_keys"
    by (auto simp: Seal_def split: if_splits)
  from assms p obtain cipher where g: "EVP_get_cipherbyname L cipher_name = Some cipher"
    by (cases "EVP_get_cipherbyname L cipher_name") (auto simp: Seal_def)
  let ?n = "length pub_keys"
  let ?out1 = "out\<lparr>encrypted_keys_out := resize ?n [] (encrypted_keys_out out),
                   iv_out := resize (EVP_CIPHER_iv_length L cipher) 0 (iv_out out),
                   ciphertext_out :=
                     resize (length plaintext + EVP_CIPHER_block_size L cipher) 0
                       (ciphertext_out out)\<rparr>"
  let ?out2 = "?out1\<lparr>encrypted_keys_out :=
                    map (\<lambda>i. resize (EVP_PKEY_size L (pub_keys ! i)) 0
                               (encrypted_keys_out ?out1 ! i)) [0..<?n]\<rparr>"
  from assms p g have s: "Seal_init L cipher pub_keys plaintext rnd ?out2 = (None, out', calls)"
    by (simp add: Seal_def Seal_sizes_def Let_def)
  from Seal_init_success [OF s] obtain ctx ek ivw ctx1 w ctx2 w' where
    h: "EVP_CIPHER_CTX_new L = Some ctx"
       "EVP_SealInit L ctx cipher pub_keys rnd = (int ?n, ek, ivw, ctx1)"
       "EVP_SealUpdate L ctx1 plaintext (to_int (length plaintext)) = (1, w, ctx2)"
       "EVP_SealFinal L ctx2 = (1, w')"
       "\<forall>i<?n. length (ek i) \<le> length (encrypted_keys_out ?out2 ! i)"
       "length ivw \<le> length (iv_out ?out2)"
       "length (ciphertext_out ?out2) < 2 ^ 31 \<longrightarrow>
          length w + length w' \<le> length (ciphertext_out ?out2) \<and> ciphertext_out out' = w @ w'"
       "encrypted_keys_out out' = map ek [0..<?n]"
       "iv_out out' = ivw @ drop (length ivw) (iv_out ?out2)"
       "calls = [CTX_new, SealInit, SealUpdate, SealFinal, CTX_free]"
    by blast
  from h(5) have kb: "\<forall>i<?n. length (ek i) \<le> EVP_PKEY_size L (pub_keys ! i)"
    by (simp add: length_resize)
  from h(6) have ib: "length ivw \<le> EVP_CIPHER_iv_length L cipher"
    by (simp add: length_resize)
  from h(7) have cb: "length plaintext + EVP_CIPHER_block_size L cipher < 2 ^ 31 \<longrightarrow>
       length w + length w' \<le> length plaintext + EVP_CIPHER_block_size L cipher \<and>
       ciphertext_out out' = w @ w'"
    by (simp add: length_resize)
  from h(9) ib have il: "length (iv_out out') = EVP_CIPHER_iv_length L cipher"
    by (simp add: length_resize)
  from h(9) have it: "take (length ivw) (iv_out out') = ivw"
    by simp
  from p g h(1-4) kb ib cb h(8) il it h(10) show ?thesis
    by simp
qed

lemma Open_cipher_run:
  assumes "length iv = EVP_CIPHER_iv_length L cipher"
    and "EVP_CIPHER_CTX_new L = Some ctx"
    and "EVP_OpenInit L ctx cipher encrypted_key iv priv_key = (q, dx1)" and "q \<noteq> 0"
    and "EVP_OpenUpdate L dx1 ciphertext (to_int (length ciphertext)) = (1, p, dx2)"
    and "EVP_OpenFinal L dx2 = (1, p')"
    and "length p + length p' \<le> length buf"
    and "length p + length p' < 2 ^ 31"
  shows "Open_cipher L cipher priv_key ciphertext encrypted_key iv buf =
    (Inr (length p + length p'), p @ p' @ drop (length p + length p') buf, [],
     [CTX_new, OpenInit, OpenUpdate, OpenFinal, CTX_free])"
proof -
  from assms(7) have f1: "fits buf 0 p"
    by (simp add: fits_def)
  from assms(7) have f2: "fits (poke buf 0 p) (length p) p'"
    by (simp add: fits_def length_poke)
  from assms(8) have lp: "to_int (length p) = int (length p)"
    and lp': "to_int (length p') = int (length p')"
    by (simp_all add: to_int_id)
  from assms(8) have "int (length p) + int (length p') < 2 ^ 31"
    by (metis of_nat_add of_nat_less_iff of_nat_numeral of_nat_power)
  then have s: "int32 (int (length p) + int (length p')) = int (length p) + int (length p')"
    by (simp add: int32_id)
  have n: "nat (int (length p) + int (length p')) = length p + length p'"
    by simp
  from assms(1-7) f1 f2 lp lp' s n show ?thesis
    by (simp add: Open_cipher_def Let_def poke_at_def spill_at_def poke_poke spill_fits
          length_poke del: of_nat_add)
qed

lemma Open_cipher_length:
  "length (fst (snd (Open_cipher L cipher priv_key ciphertext encrypted_key iv buf))) = length buf"
  by (auto simp: Open_cipher_def Let_def length_poke length_poke_at split: option.splits prod.splits)

lemma Open_cipher_returns_le:
  "Open_cipher L cipher priv_key ciphertext encrypted_key iv buf = (Inr n, buf', past, calls) \<Longrightarrow>
   n \<le> length buf"
  by (auto simp: Open_cipher_def Let_def length_poke length_poke_at
        split: option.splits prod.splits if_splits)

lemma take_poke_agree:
  assumes "length a = length b" and "take off a = take off b" and "m \<le> off + length w"
  shows "take m (poke a off w) = take m (poke b off w)"
proof (cases "off \<le> length a")
  case False
  with assms(1,2) have "a = b"
    by simp
  then show ?thesis
    by simp
next
  case True
  have cut: "take m (take off c @ w @ drop (off + length w) c) = take m (take off c @ w)"
    if "off \<le> length c" for c :: bytes
  proof -
    from that assms(3) have "m \<le> length (take off c @ w)"
      by simp
    then have "take m ((take off c @ w) @ drop (off + length w) c) = take m (take off c @ w)"
      by (simp del: append_assoc length_append)
    then show ?thesis
      by simp
  qed
  from True assms(1) have tb: "off \<le> length b"
    by simp
  have "take m (take off a @ w @ drop (off + length w) a) = take m (take off a @ w)"
    by (rule cut [OF True])
  also have "\<dots> = take m (take off b @ w)"
    by (simp only: assms(2))
  also have "\<dots> = take m (take off b @ w @ drop (off + length w) b)"
    by (rule cut [OF tb, symmetric])
  finally have "take m (take off a @ w @ drop (off + length w) a) =
        take m (take off b @ w @ drop (off + length w) b)" .
  then have "take (length b) (take m (take off a @ w @ drop (off + length w) a)) =
             take (length b) (take m (take off b @ w @ drop (off + length w) b))"
    by simp
  then show ?thesis
    unfolding poke_def assms(1) take_take by (simp add: min.commute)
qed

lemma take_mono_eq: "take k a = take k b \<Longrightarrow> j \<le> k \<Longrightarrow> take j a = take j b"
  by (metis min.absorb1 take_take)

lemma writes_agree:
  assumes l: "length a = length b"
    and pl: "pl = int32 (to_int (length w) + to_int (length w'))"
    and nn: "0 \<le> pl"
  shows "take (nat pl) (poke_at (poke a 0 w) (to_int (length w)) w') =
         take (nat pl) (poke_at (poke b 0 w) (to_int (length w)) w')"
proof -
  let ?len = "to_int (length w)"
  have l1: "length (poke a 0 w) = length (poke b 0 w)"
    by (simp add: length_poke l)
  have first: "take (length w) (poke a 0 w) = take (length w) (poke b 0 w)"
    by (rule take_poke_agree) (simp_all add: l)
  note r = int32_range [of "?len + to_int (length w')"]
  show ?thesis
  proof (cases "0 \<le> ?len")
    case False
    then have "2 ^ 31 \<le> length w"
      using to_int_neg [of "length w"] by simp
    moreover from r pl have "nat pl < 2 ^ 31"
      using nn by simp
    ultimately have "nat pl \<le> length w"
      by simp
    with first have "take (nat pl) (poke a 0 w) = take (nat pl) (poke b 0 w)"
      by (rule take_mono_eq)
    with False show ?thesis
      by (simp add: poke_at_def)
  next
    case True
    have le: "nat ?len \<le> length w"
      using to_int_le [of "length w"] by simp
    from first le have pre: "take (nat ?len) (poke a 0 w) = take (nat ?len) (poke b 0 w)"
      by (rule take_mono_eq)
    have ra: "?len < 2 ^ 31" and rb: "- (2 ^ 31) \<le> to_int (length w')"
      and rc: "to_int (length w') < 2 ^ 31"
      using int32_range [of "int (length w)"] int32_range [of "int (length w')"]
      by (simp_all add: to_int_def)
    from nn pl have "pl = ?len + to_int (length w')"
      using int32_sum_nonneg [OF True ra rb rc] by simp
    with to_int_le [of "length w'"] have "nat pl \<le> nat ?len + length w'"
      by simp
    then have "take (nat pl) (poke (poke a 0 w) (nat ?len) w') =
                      take (nat pl) (poke (poke b 0 w) (nat ?len) w')"
      by (rule take_poke_agree [OF l1 pre])
    with True show ?thesis
      by (simp add: poke_at_def)
  qed
qed

lemma Open_cipher_content:
  assumes "length buf = length buf'"
  shows "fst (Open_cipher L cipher priv_key ciphertext encrypted_key iv buf) =
         fst (Open_cipher L cipher priv_key ciphertext encrypted_key iv buf') \<and>
         snd (snd (snd (Open_cipher L cipher priv_key ciphertext encrypted_key iv buf))) =
         snd (snd (snd (Open_cipher L cipher priv_key ciphertext encrypted_key iv buf'))) \<and>
         (\<forall>n. fst (Open_cipher L cipher priv_key ciphertext encrypted_key iv buf) = Inr n \<longrightarrow>
           take n (fst (snd (Open_cipher L cipher priv_key ciphertext encrypted_key iv buf))) =
           take n (fst (snd (Open_cipher L cipher priv_key ciphertext encrypted_key iv buf'))))"
  using assms writes_agree [OF assms refl]
  by (auto simp: Open_cipher_def Let_def length_poke length_poke_at
           split: option.splits prod.splits)

lemma pads_to_blockD:
  assumes "pads_to_block L cipher"
    and "length plaintext + EVP_CIPHER_block_size L cipher < 2 ^ 31"
    and "EVP_SealInit L ctx cipher pub_keys rnd = (int (length pub_keys), ek, ivw, ctx1)"
    and "EVP_SealUpdate L ctx1 plaintext (int (length plaintext)) = (1, w, ctx2)"
    and "EVP_SealFinal L ctx2 = (1, w')"
  shows "length w + length w' =
    (length plaintext div EVP_CIPHER_block_size L cipher + 1) * EVP_CIPHER_block_size L cipher"
  using assms(1) unfolding pads_to_block_def
  apply (elim conjE)
  apply (erule_tac x = ctx in allE, erule_tac x = pub_keys in allE)
  apply (erule_tac x = rnd in allE, erule_tac x = plaintext in allE)
  apply (insert assms(2-5))
  apply simp
  done

lemma seal_open_inverseD:
  assumes "seal_open_inverse L keypair cipher"
    and "i < length pub_keys" and "keypair (pub_keys ! i) priv_key"
    and "length plaintext + EVP_CIPHER_block_size L cipher < 2 ^ 31"
    and "EVP_SealInit L ctx cipher pub_keys rnd = (int (length pub_keys), ek, ivw, ctx1)"
    and "EVP_SealUpdate L ctx1 plaintext (int (length plaintext)) = (1, w, ctx2)"
    and "EVP_SealFinal L ctx2 = (1, w')"
  shows "length ivw = EVP_CIPHER_iv_length L cipher \<and>
    (\<exists>q dx1 p dx2 p'.
       EVP_OpenInit L ctx0 cipher (ek i) ivw priv_key = (q, dx1) \<and> q \<noteq> 0 \<and>
       EVP_OpenUpdate L dx1 (w @ w') (int (length (w @ w'))) = (1, p, dx2) \<and>
       EVP_OpenFinal L dx2 = (1, p') \<and> p @ p' = plaintext)"
  using assms(1) unfolding seal_open_inverse_def
  apply -
  apply (erule_tac x = ctx in allE)
  apply (erule_tac x = pub_keys in allE, erule_tac x = rnd in allE)
  apply (erule_tac x = plaintext in allE, erule_tac x = ctx0 in allE)
  apply (erule_tac x = i in allE, erule_tac x = priv_key in allE)
  apply (insert assms(2-7))
  apply (simp split: prod.splits)
  done

lemma open_output_boundedD:
  assumes "open_output_bounded L cipher"
    and "EVP_OpenInit L ctx cipher encrypted_key iv priv_key = (q, dx1)" and "q \<noteq> 0"
    and "EVP_OpenUpdate L dx1 ciphertext (to_int (length ciphertext)) = (q1, p, dx2)"
    and "EVP_OpenFinal L dx2 = (q2, p')"
  shows "length p \<le> length ciphertext + EVP_CIPHER_block_size L cipher \<and> length p < 2 ^ 31 \<and>
    (q1 = 1 \<longrightarrow>
       length p + length p' \<le> length ciphertext + EVP_CIPHER_block_size L cipher \<and>
       length p + length p' < 2 ^ 31)"
  using assms(1) unfolding open_output_bounded_def
  apply -
  apply (erule_tac x = ctx in allE)
  apply (erule_tac x = encrypted_key in allE, erule_tac x = iv in allE)
  apply (erule_tac x = priv_key in allE, erule_tac x = ciphertext in allE)
  apply (insert assms(2-5))
  apply simp
  done

lemma toy_crypt_twice: "toy_crypt m (toy_crypt m bs) = bs"
  by (simp add: toy_crypt_def comp_def word_bw_assocs)

lemma length_toy_crypt: "length (toy_crypt m bs) = length bs"
  by (simp add: toy_crypt_def)

lemma toy_unwrap_wrap:
  "toy_keypair pub priv \<Longrightarrow> toy_unwrap priv (toy_wrap pub k) = Some k"
  by (cases "(pub, priv)" rule: toy_keypair.cases) (auto simp: word_bw_assocs)

lemma takeWhile_all: "length (takeWhile P xs) = length xs \<Longrightarrow> takeWhile P xs = xs"
  by (metis length_append add_diff_cancel_left' length_0_conv takeWhile_dropWhile_id self_append_conv add.right_neutral)

lemma takeWhile_all_nth:
  "length (takeWhile P xs) = length xs \<Longrightarrow> i < length xs \<Longrightarrow> P (xs ! i)"
  by (metis takeWhile_all nth_mem set_takeWhileD)

lemma toy_SealInit_ok:
  assumes "toy_SealInit ctx cipher pub_keys rnd = (int (length pub_keys), ek, ivw, ctx1)"
  shows "\<exists>k. (\<forall>i<length pub_keys. ek i = toy_wrap (pub_keys ! i) k \<and> is_pub (pub_keys ! i)) \<and>
             length ivw = 8 \<and> ctx1 = Enc (toy_mask k ivw) []"
proof -
  let ?good = "takeWhile is_pub pub_keys"
  from assms have l: "length ?good = length pub_keys"
    by (auto simp: toy_SealInit_def Let_def split: if_splits)
  then have g: "?good = pub_keys"
    by (rule takeWhile_all)
  from l have p: "\<forall>i<length pub_keys. is_pub (pub_keys ! i)"
    by (simp add: takeWhile_all_nth)
  from assms g p show ?thesis
    by (auto simp: toy_SealInit_def Let_def length_resize)
qed

lemma toy_pad_props:
  assumes "length r < 8"
  shows "length (toy_pad r) = 8"
    and "1 \<le> unat (last (toy_pad r))"
    and "unat (last (toy_pad r)) \<le> 8"
    and "drop (8 - unat (last (toy_pad r))) (toy_pad r) =
           replicate (unat (last (toy_pad r))) (of_nat (unat (last (toy_pad r))))"
    and "take (8 - unat (last (toy_pad r))) (toy_pad r) = r"
proof -
  define p where "p = 8 - length r"
  have pd: "toy_pad r = r @ replicate p (of_nat p)"
    by (simp add: toy_pad_def p_def Let_def)
  have p0: "0 < p" and p8: "p \<le> 8" and lr: "length r = 8 - p"
    using assms by (simp_all add: p_def)
  have "last (toy_pad r) = (of_nat p :: byte)"
    using p0 by (simp add: pd)
  moreover have "unat (of_nat p :: byte) = p"
    using p8 by (simp add: unat_of_nat)
  ultimately have u: "unat (last (toy_pad r)) = p"
    by simp
  show "length (toy_pad r) = 8"
    using p8 by (simp add: pd lr)
  show "1 \<le> unat (last (toy_pad r))"
    using p0 by (simp add: u)
  show "unat (last (toy_pad r)) \<le> 8"
    using p8 by (simp add: u)
  show "drop (8 - unat (last (toy_pad r))) (toy_pad r) =
           replicate (unat (last (toy_pad r))) (of_nat (unat (last (toy_pad r))))"
    unfolding u by (simp add: pd lr)
  show "take (8 - unat (last (toy_pad r))) (toy_pad r) = r"
    unfolding u by (simp add: pd lr)
qed

lemma toy_OpenFinal_pad:
  assumes "length r < 8"
  shows "toy_OpenFinal (Dec m (toy_crypt m (toy_pad r))) = (1, r)"
  using toy_pad_props [OF assms]
  by (simp add: Let_def length_toy_crypt toy_crypt_twice)

lemma toy_tail_short: "length (drop ((length xs div 8) * 8) xs) < 8"
proof -
  have "length (drop ((length xs div 8) * 8) xs) = length xs mod 8"
    by (simp add: minus_div_mult_eq_mod)
  then show ?thesis by simp
qed

lemma toy_SealUpdate_fresh:
  "toy_SealUpdate (Enc m []) plaintext (int (length plaintext)) =
     (1, toy_crypt m (take ((length plaintext div 8) * 8) plaintext),
      Enc m (drop ((length plaintext div 8) * 8) plaintext))"
  by (simp add: Let_def)

lemma toy_OpenUpdate_sealed:
  fixes plaintext :: bytes and m :: byte
  defines "n \<equiv> (length plaintext div 8) * 8"
  defines "c \<equiv> toy_crypt m (take n plaintext) @ toy_crypt m (toy_pad (drop n plaintext))"
  shows "toy_OpenUpdate (Dec m []) c (int (length c)) =
          (1, take n plaintext, Dec m (toy_crypt m (toy_pad (drop n plaintext))))"
proof -
  have nl: "n \<le> length plaintext"
    by (simp add: n_def)
  have bl: "length (toy_pad (drop n plaintext)) = 8"
    unfolding n_def using toy_tail_short by (rule toy_pad_props)
  have tl: "length (take n plaintext) = n"
    using nl by simp
  have n8: "n mod 8 = 0"
    by (simp add: n_def)
  have lc: "length c = n + 8"
    by (simp only: c_def length_append length_toy_crypt bl tl)
  have "toy_OpenUpdate (Dec m []) c (int (length c)) =
        (1, toy_crypt m (take n c), Dec m (drop n c))"
    using lc n8 by (simp add: Let_def)
  moreover have "take n c = toy_crypt m (take n plaintext)"
    and "drop n c = toy_crypt m (toy_pad (drop n plaintext))"
    using tl by (simp_all add: c_def length_toy_crypt del: length_take)
  ultimately show ?thesis
    by (simp add: toy_crypt_twice)
qed

lemma toy_inverse: "seal_open_inverse toy toy_keypair Xor8"
  unfolding seal_open_inverse_def
proof (intro allI impI)
  fix ctx :: toy_ctx and pub_keys rnd and plaintext :: bytes
    and ctx0 :: toy_ctx and i priv_key
  assume a: "i < length pub_keys \<and> toy_keypair (pub_keys ! i) priv_key \<and>
             length plaintext + EVP_CIPHER_block_size toy Xor8 < 2 ^ 31"
  obtain r ek ivw ctx1 where si: "toy_SealInit ctx Xor8 pub_keys rnd = (r, ek, ivw, ctx1)"
    by (cases "toy_SealInit ctx Xor8 pub_keys rnd") auto
  show "case EVP_SealInit toy ctx Xor8 pub_keys rnd of (r, ek, ivw, ctx1) \<Rightarrow>
         case EVP_SealUpdate toy ctx1 plaintext (int (length plaintext)) of (r1, w, ctx2) \<Rightarrow>
         case EVP_SealFinal toy ctx2 of (r2, w') \<Rightarrow>
           r = int (length pub_keys) \<and> r1 = 1 \<and> r2 = 1 \<longrightarrow>
           length ivw = EVP_CIPHER_iv_length toy Xor8 \<and>
           (case EVP_OpenInit toy ctx0 Xor8 (ek i) ivw priv_key of (q, dx1) \<Rightarrow>
            case EVP_OpenUpdate toy dx1 (w @ w') (int (length (w @ w'))) of (q1, p, dx2) \<Rightarrow>
            case EVP_OpenFinal toy dx2 of (q2, p') \<Rightarrow>
              q \<noteq> 0 \<and> q1 = 1 \<and> q2 = 1 \<and> p @ p' = plaintext)"
  proof (cases "r = int (length pub_keys)")
    case False
    with si show ?thesis
      by (simp add: toy_def split: prod.splits)
  next
    case True
    with si toy_SealInit_ok [of ctx Xor8 pub_keys rnd ek ivw ctx1] obtain k where
      k: "ek i = toy_wrap (pub_keys ! i) k" "length ivw = 8" "ctx1 = Enc (toy_mask k ivw) []"
      using a by auto
    let ?m = "toy_mask k ivw"
    from a k(1) have oi: "toy_OpenInit ctx0 Xor8 (ek i) ivw priv_key = (1, Dec ?m [])"
      by (simp add: toy_OpenInit_def toy_unwrap_wrap)
    from si True k oi toy_SealUpdate_fresh [of ?m plaintext]
      toy_OpenUpdate_sealed [of ?m plaintext]
      toy_OpenFinal_pad [OF toy_tail_short, of ?m plaintext]
    show ?thesis
      by (simp add: toy_def del: toy_SealUpdate.simps toy_OpenUpdate.simps toy_OpenFinal.simps
            length_append of_nat_add)
  qed
qed

lemma toy_pads: "pads_to_block toy Xor8"
  unfolding pads_to_block_def
proof (intro conjI allI impI)
  show "0 < EVP_CIPHER_block_size toy Xor8"
    by (simp add: toy_def)
next
  fix ctx :: toy_ctx and pub_keys rnd and plaintext :: bytes
  obtain r ek ivw ctx1 where si: "toy_SealInit ctx Xor8 pub_keys rnd = (r, ek, ivw, ctx1)"
    by (cases "toy_SealInit ctx Xor8 pub_keys rnd") auto
  show "case EVP_SealInit toy ctx Xor8 pub_keys rnd of (r, ek, ivw, ctx1) \<Rightarrow>
         case EVP_SealUpdate toy ctx1 plaintext (int (length plaintext)) of (r1, w, ctx2) \<Rightarrow>
         case EVP_SealFinal toy ctx2 of (r2, w') \<Rightarrow>
           r = int (length pub_keys) \<and> r1 = 1 \<and> r2 = 1 \<longrightarrow>
           length w + length w' =
             (length plaintext div EVP_CIPHER_block_size toy Xor8 + 1)
               * EVP_CIPHER_block_size toy Xor8"
  proof (cases "r = int (length pub_keys)")
    case False
    with si show ?thesis
      by (simp add: toy_def split: prod.splits)
  next
    case True
    with si toy_SealInit_ok [of ctx Xor8 pub_keys rnd ek ivw ctx1] obtain k where
      k: "ctx1 = Enc (toy_mask k ivw) []"
      by auto
    from si True k toy_SealUpdate_fresh [of "toy_mask k ivw" plaintext]
      toy_pad_props(1) [OF toy_tail_short, of plaintext]
    show ?thesis
      by (simp add: toy_def length_toy_crypt del: toy_SealUpdate.simps)
  qed
qed

lemma toy_bounded: "open_output_bounded toy Xor8"
  unfolding open_output_bounded_def
proof (intro allI)
  fix ctx :: toy_ctx and encrypted_key iv :: bytes and priv_key and ciphertext :: bytes
  let ?inl = "to_int (length ciphertext)"
  obtain q dx1 where oi: "toy_OpenInit ctx Xor8 encrypted_key iv priv_key = (q, dx1)"
    by (cases "toy_OpenInit ctx Xor8 encrypted_key iv priv_key") auto
  obtain q1 p dx2 where ou: "toy_OpenUpdate dx1 ciphertext ?inl = (q1, p, dx2)"
    by (cases "toy_OpenUpdate dx1 ciphertext ?inl") auto
  obtain q2 p' where f: "toy_OpenFinal dx2 = (q2, p')"
    by (cases "toy_OpenFinal dx2") auto
  have "length p \<le> length ciphertext + 8 \<and> length p < 2 ^ 31 \<and>
        (q1 = 1 \<longrightarrow> length p + length p' \<le> length ciphertext + 8 \<and>
                  length p + length p' < 2 ^ 31)" if q: "q \<noteq> 0"
  proof (cases "?inl < 0")
    case True
    from q oi obtain m where d: "dx1 = Dec m []"
      by (auto simp: toy_OpenInit_def split: option.splits)
    with ou True show ?thesis
      by simp
  next
    case False
    from q oi obtain m where d: "dx1 = Dec m []"
      by (auto simp: toy_OpenInit_def split: option.splits)
    define d where "d = take (nat ?inl) ciphertext"
    from int32_range [of "int (length ciphertext)"] have "?inl < 2 ^ 31"
      by (simp add: to_int_def)
    then have "nat ?inl < 2 ^ 31"
      by (simp add: nat_less_iff)
    then have dl: "length d < 2 ^ 31" and dc: "length d \<le> length ciphertext"
      by (simp_all add: d_def)
    define n where "n = (if length d mod 8 = 0 then length d - 8 else (length d div 8) * 8)"
    have "toy_OpenUpdate (Dec m []) ciphertext ?inl =
            (1, toy_crypt m (take n d), Dec m (drop n d))"
      using False by (simp add: Let_def n_def d_def)
    with ou d have p: "p = toy_crypt m (take n d)" and x: "dx2 = Dec m (drop n d)"
      by (simp_all del: toy_OpenUpdate.simps)
    have nd: "n \<le> length d"
      by (simp add: n_def)
    from p nd have pl: "length p = n"
      by (simp add: length_toy_crypt)
    have sum: "length p + length p' \<le> length d"
    proof (cases "length (drop n d) = 8")
      case True
      with f x have "length p' \<le> 8"
        by (auto simp: Let_def length_toy_crypt split: if_splits simp del: length_drop)
      moreover from True have "n + 8 = length d"
        by simp
      ultimately show ?thesis
        using pl by simp
    next
      case False
      with f x have "p' = []"
        by (simp del: length_drop)
      with pl nd show ?thesis
        by simp
    qed
    from pl nd dl dc sum show ?thesis
      by simp
  qed
  with oi ou f show "case EVP_OpenInit toy ctx Xor8 encrypted_key iv priv_key of (q, dx1) \<Rightarrow>
         case EVP_OpenUpdate toy dx1 ciphertext (to_int (length ciphertext)) of
           (q1, p, dx2) \<Rightarrow>
         case EVP_OpenFinal toy dx2 of (q2, p') \<Rightarrow>
           q \<noteq> 0 \<longrightarrow>
           length p \<le> length ciphertext + EVP_CIPHER_block_size toy Xor8 \<and>
           length p < 2 ^ 31 \<and>
           (q1 = 1 \<longrightarrow>
             length p + length p' \<le> length ciphertext + EVP_CIPHER_block_size toy Xor8 \<and>
             length p + length p' < 2 ^ 31)"
    by (simp add: toy_def del: toy_OpenUpdate.simps toy_OpenFinal.simps)
qed

lemma Seal_run:
  assumes cn: "EVP_get_cipherbyname L cipher_name = Some cipher"
    and pos: "0 < length pub_keys"
    and n: "EVP_CIPHER_CTX_new L = Some ctx"
    and si: "EVP_SealInit L ctx cipher pub_keys rnd = (int (length pub_keys), ek, ivw, ctx1)"
    and fk: "\<forall>i<length pub_keys. length (ek i) \<le> EVP_PKEY_size L (pub_keys ! i)"
    and fi: "length ivw \<le> EVP_CIPHER_iv_length L cipher"
    and su: "EVP_SealUpdate L ctx1 plaintext (to_int (length plaintext)) = (1, w, ctx2)"
    and sf: "EVP_SealFinal L ctx2 = (1, w')"
    and fc: "length w + length w' \<le> length plaintext + EVP_CIPHER_block_size L cipher"
    and sm: "length w + length w' < 2 ^ 31"
  shows "fst (Seal L cipher_name pub_keys plaintext rnd out) = None \<and>
         ciphertext_out (fst (snd (Seal L cipher_name pub_keys plaintext rnd out))) = w @ w'"
proof -
  let ?S = "Seal_sizes L cipher pub_keys plaintext out"
  let ?S1 = "SealInit_writes ?S (length pub_keys) ek ivw"
  have lc: "length (ciphertext_out ?S1) = length plaintext + EVP_CIPHER_block_size L cipher"
    by (simp add: SealInit_writes_def Seal_sizes_def Let_def length_resize)
  have intact: "list_all (\<lambda>i. fits (encrypted_keys_out ?S ! i) 0 (ek i)) [0..<length pub_keys]
                 \<and> fits (iv_out ?S) 0 ivw"
    using fk fi by (simp add: Seal_sizes_def Let_def list_all_iff fits_def length_resize)
  from sm have lw: "to_int (length w) = int (length w)"
    and lw': "to_int (length w') = int (length w')"
    by (simp_all add: to_int_id)
  from sm have "int (length w) + int (length w') < 2 ^ 31"
    by (metis of_nat_add of_nat_less_iff of_nat_numeral of_nat_power)
  then have s32: "int32 (int (length w) + int (length w')) = int (length w) + int (length w')"
    by (simp add: int32_id)
  have nn: "nat (int (length w) + int (length w')) = length w + length w'"
    by simp
  from fc lc have f1: "fits (ciphertext_out ?S1) 0 w"
    and f2: "fits (poke (ciphertext_out ?S1) 0 w) (length w) w'"
    by (simp_all add: fits_def length_poke)
  have st: "Seal_stream L ctx1 (length pub_keys) (\<lambda>i. length (ek i)) plaintext True ?S1 =
      (None,
       ?S1\<lparr>ciphertext_out := poke (poke (ciphertext_out ?S1) 0 w) (length w) w',
            encrypted_keys_out :=
              map (\<lambda>i. resize (length (ek i)) 0 (encrypted_keys_out ?S1 ! i))
                [0..<length pub_keys],
            ciphertext_out :=
              resize (length w + length w') 0
                (poke (poke (ciphertext_out ?S1) 0 w) (length w) w')\<rparr>,
       [SealUpdate, SealFinal, CTX_free])"
    using su sf f1 f2 lw lw' s32 nn
    by (simp add: Seal_stream_def Let_def fits_at_def poke_at_def del: of_nat_add)
  from cn pos n si intact st f1 f2 show ?thesis
    by (simp add: Seal_def Seal_init_def Let_def resize_poke_poke)
qed

lemma length_long_plaintext: "length long_plaintext = 2 ^ 32 + 5"
  by (simp only: long_plaintext_def length_replicate)

lemma to_int_long: "to_int (length long_plaintext) = 5"
  by (simp add: length_long_plaintext to_int_def int32_def)

lemma take_long_plaintext: "take 5 long_plaintext = [0, 0, 0, 0, 0]"
proof -
  have "take 5 long_plaintext = replicate (min 5 (2 ^ 32 + 5)) 0"
    by (simp only: long_plaintext_def take_replicate)
  also have "min (5 :: nat) (2 ^ 32 + 5) = 5"
    by simp
  also have "replicate 5 (0 :: byte) = [0, 0, 0, 0, 0]"
    by (simp add: numeral_eq_Suc)
  finally show ?thesis .
qed

section \<open>The claims\<close>

text \<open>
  In the theorems below a successful call of \<^verbatim>\<open>Seal\<close> is one whose outcome is \<open>None\<close>: the
  function returned, and \<open>out'\<close> holds the three output vectors. The error kinds of the
  specification are, in the code, one exception type: \<open>UnknownCipher\<close> is the exception
  with the message about the unknown cipher, \<open>CryptoOperationFailed\<close> is the exception
  thrown without a message after a library call has failed.
\<close>

text \<open>
  Claim C1 promises the round trip for every cipher name the library knows. The code
  handles no authentication tag, so with a cipher that needs one \<^verbatim>\<open>Seal\<close> returns and
  \<^verbatim>\<open>Open\<close>, with the right private key and exactly what \<^verbatim>\<open>Seal\<close> produced, throws.
\<close>

theorem Seal_Open_roundtrip_aead_counterexample:
  "Seal toy_aead ''xor-8-gcm'' [Pub 1] [104, 101, 108, 108, 111]
     [7, 1, 2, 3, 4, 5, 6, 7, 8] empty_out =
     (None,
      \<lparr>encrypted_keys_out = [[1, 6]], iv_out = [1, 2, 3, 4, 5, 6, 7, 8],
       ciphertext_out = [103, 106, 99, 99, 96, 12, 12, 12]\<rparr>,
      [CTX_new, SealInit, SealUpdate, SealFinal, CTX_free]) \<and>
   toy_keypair (Pub 1) (Priv 1) \<and>
   Open_vector toy_aead ''xor-8-gcm'' (Priv 1) [103, 106, 99, 99, 96, 12, 12, 12] [1, 6]
     [1, 2, 3, 4, 5, 6, 7, 8] [] =
     (Some (OpenSSLException ''''), [0, 0, 0, 0, 0, 0, 0, 0, 0, 0, 0, 0, 0, 0, 0, 0],
      [CTX_new, OpenInit, OpenUpdate, OpenFinal, CTX_free])"
  by code_simp

text \<open>
  Claim C1, as the code has it. Round trip for a cipher that is decrypted from key and IV
  alone, and a plaintext whose size plus one block fits an \<^verbatim>\<open>int\<close>: when \<^verbatim>\<open>Seal\<close> returns,
  \<^verbatim>\<open>Open\<close> with the private key of recipient \<open>i\<close>, the ciphertext, the encrypted key at
  position \<open>i\<close> and the IV returns exactly the plaintext (the empty one included), for
  every position \<open>i\<close> of a non-empty key list. The vector overload returns the plaintext
  itself; the buffer overload, given room for the ciphertext length plus one block,
  returns the plaintext length and leaves the plaintext at the start of the buffer.
\<close>

theorem Seal_Open_roundtrip:
  assumes inv: "seal_open_inverse L keypair cipher"
    and bnd: "open_output_bounded L cipher"
    and cn: "EVP_get_cipherbyname L cipher_name = Some cipher"
    and small: "length plaintext + EVP_CIPHER_block_size L cipher < 2 ^ 31"
    and seal: "Seal L cipher_name pub_keys plaintext rnd out = (None, out', calls)"
    and i: "i < length pub_keys"
    and kp: "keypair (pub_keys ! i) priv_key"
  shows "Open_vector L cipher_name priv_key (ciphertext_out out') (encrypted_keys_out out' ! i)
           (iv_out out') v =
         (None, plaintext, [CTX_new, OpenInit, OpenUpdate, OpenFinal, CTX_free]) \<and>
         (length (ciphertext_out out') + EVP_CIPHER_block_size L cipher \<le> length buf \<longrightarrow>
          Open_buffer L cipher_name priv_key (ciphertext_out out') (encrypted_keys_out out' ! i)
            (iv_out out') buf =
          (Inr (length plaintext), plaintext @ drop (length plaintext) buf,
           [CTX_new, OpenInit, OpenUpdate, OpenFinal, CTX_free]))"
proof -
  let ?bs = "EVP_CIPHER_block_size L cipher"
  from small have lp: "to_int (length plaintext) = int (length plaintext)"
    by (simp add: to_int_id)
  from Seal_success [OF seal] cn small lp obtain ctx ek ivw ctx1 w ctx2 w' where
    n: "EVP_CIPHER_CTX_new L = Some ctx"
    and si: "EVP_SealInit L ctx cipher pub_keys rnd = (int (length pub_keys), ek, ivw, ctx1)"
    and su: "EVP_SealUpdate L ctx1 plaintext (int (length plaintext)) = (1, w, ctx2)"
    and sf: "EVP_SealFinal L ctx2 = (1, w')"
    and cl: "length w + length w' \<le> length plaintext + ?bs"
    and ct: "ciphertext_out out' = w @ w'"
    and ks: "encrypted_keys_out out' = map ek [0..<length pub_keys]"
    and il: "length (iv_out out') = EVP_CIPHER_iv_length L cipher"
    and it: "take (length ivw) (iv_out out') = ivw"
    by auto
  from cl small have "length (w @ w') < 2 ^ 31"
    by simp
  then have lc: "to_int (length (w @ w')) = int (length (w @ w'))"
    by (rule to_int_id)
  from seal_open_inverseD [OF inv i kp small si su sf, of ctx] obtain q dx1 p dx2 p' where
    wl: "length ivw = EVP_CIPHER_iv_length L cipher"
    and oi: "EVP_OpenInit L ctx cipher (ek i) ivw priv_key = (q, dx1)" and q: "q \<noteq> 0"
    and ou: "EVP_OpenUpdate L dx1 (w @ w') (int (length (w @ w'))) = (1, p, dx2)"
    and ofi: "EVP_OpenFinal L dx2 = (1, p')"
    and pp: "p @ p' = plaintext"
    by blast
  from ou lc have ou': "EVP_OpenUpdate L dx1 (w @ w') (to_int (length (w @ w'))) = (1, p, dx2)"
    by simp
  from it wl il have iv: "iv_out out' = ivw"
    by simp
  from ks i have k: "encrypted_keys_out out' ! i = ek i"
    by simp
  from open_output_boundedD [OF bnd oi q ou' ofi]
  have b: "length p + length p' \<le> length (w @ w') + ?bs"
    by simp
  from pp have lpp: "length p + length p' = length plaintext"
    by auto
  with small have sm: "length p + length p' < 2 ^ 31"
    by simp
  have run: "Open_cipher L cipher priv_key (w @ w') (ek i) ivw b' =
      (Inr (length plaintext), plaintext @ drop (length plaintext) b', [],
       [CTX_new, OpenInit, OpenUpdate, OpenFinal, CTX_free])"
    if "length (w @ w') + ?bs \<le> length b'" for b'
  proof -
    from that b have "length p + length p' \<le> length b'"
      by simp
    from Open_cipher_run [OF wl n oi q ou' ofi this sm] pp lpp show ?thesis
      by (simp add: append_assoc [symmetric] del: append_assoc)
  qed
  have v: "Open_vector L cipher_name priv_key (w @ w') (ek i) ivw v =
      (None, plaintext, [CTX_new, OpenInit, OpenUpdate, OpenFinal, CTX_free])"
    using cn run [of "resize (length (w @ w') + ?bs) 0 v"]
    by (simp add: Open_vector_def Let_def length_resize) (simp add: resize_def)
  have "Open_buffer L cipher_name priv_key (w @ w') (ek i) ivw buf =
      (Inr (length plaintext), plaintext @ drop (length plaintext) buf,
       [CTX_new, OpenInit, OpenUpdate, OpenFinal, CTX_free])"
    if "length (w @ w') + ?bs \<le> length buf"
    using cn run [OF that] by (simp add: Open_buffer_def)
  with v show ?thesis
    by (simp add: ct k iv)
qed

theorem Seal_Open_roundtrip_witness:
  "Seal toy ''xor-8'' [Pub 1, Pub 2] [104, 101, 108, 108, 111, 32, 119, 111, 114, 108, 100]
     [7, 1, 2, 3, 4, 5, 6, 7, 8] empty_out =
     (None,
      \<lparr>encrypted_keys_out = [[1, 6], [2, 5]], iv_out = [1, 2, 3, 4, 5, 6, 7, 8],
       ciphertext_out =
         [103, 106, 99, 99, 96, 47, 120, 96, 125, 99, 107, 10, 10, 10, 10, 10]\<rparr>,
      [CTX_new, SealInit, SealUpdate, SealFinal, CTX_free]) \<and>
   toy_keypair ([Pub 1, Pub 2] ! 1) (Priv 2) \<and>
   Open_vector toy ''xor-8'' (Priv 2)
     [103, 106, 99, 99, 96, 47, 120, 96, 125, 99, 107, 10, 10, 10, 10, 10] [2, 5]
     [1, 2, 3, 4, 5, 6, 7, 8] [9, 9, 9] =
     (None, [104, 101, 108, 108, 111, 32, 119, 111, 114, 108, 100],
      [CTX_new, OpenInit, OpenUpdate, OpenFinal, CTX_free]) \<and>
   Open_buffer toy ''xor-8'' (Priv 2)
     [103, 106, 99, 99, 96, 47, 120, 96, 125, 99, 107, 10, 10, 10, 10, 10] [2, 5]
     [1, 2, 3, 4, 5, 6, 7, 8] (replicate 24 9) =
     (Inr 11, [104, 101, 108, 108, 111, 32, 119, 111, 114, 108, 100] @ replicate 13 9,
      [CTX_new, OpenInit, OpenUpdate, OpenFinal, CTX_free]) \<and>
   Seal toy ''xor-8'' [Pub 1, Pub 2] [] [7, 1, 2, 3, 4, 5, 6, 7, 8] empty_out =
     (None,
      \<lparr>encrypted_keys_out = [[1, 6], [2, 5]], iv_out = [1, 2, 3, 4, 5, 6, 7, 8],
       ciphertext_out = [7, 7, 7, 7, 7, 7, 7, 7]\<rparr>,
      [CTX_new, SealInit, SealUpdate, SealFinal, CTX_free]) \<and>
   Open_vector toy ''xor-8'' (Priv 1) [7, 7, 7, 7, 7, 7, 7, 7] [1, 6]
     [1, 2, 3, 4, 5, 6, 7, 8] [9, 9, 9] =
     (None, [], [CTX_new, OpenInit, OpenUpdate, OpenFinal, CTX_free])"
proof -
  have g: "EVP_get_cipherbyname toy ''xor-8'' = Some Xor8"
    by (simp add: toy_def)
  have bs: "EVP_CIPHER_block_size toy Xor8 = 8"
    by (simp add: toy_def)
  have s: "Seal toy ''xor-8'' [Pub 1, Pub 2]
     [104, 101, 108, 108, 111, 32, 119, 111, 114, 108, 100]
     [7, 1, 2, 3, 4, 5, 6, 7, 8] empty_out =
     (None,
      \<lparr>encrypted_keys_out = [[1, 6], [2, 5]], iv_out = [1, 2, 3, 4, 5, 6, 7, 8],
       ciphertext_out =
         [103, 106, 99, 99, 96, 47, 120, 96, 125, 99, 107, 10, 10, 10, 10, 10]\<rparr>,
      [CTX_new, SealInit, SealUpdate, SealFinal, CTX_free])"
    by code_simp
  have s0: "Seal toy ''xor-8'' [Pub 1, Pub 2] [] [7, 1, 2, 3, 4, 5, 6, 7, 8] empty_out =
     (None,
      \<lparr>encrypted_keys_out = [[1, 6], [2, 5]], iv_out = [1, 2, 3, 4, 5, 6, 7, 8],
       ciphertext_out = [7, 7, 7, 7, 7, 7, 7, 7]\<rparr>,
      [CTX_new, SealInit, SealUpdate, SealFinal, CTX_free])"
    by code_simp
  have i1: "1 < length [Pub 1, Pub 2]" and i0: "0 < length [Pub 1, Pub 2]"
    by simp_all
  have k1: "toy_keypair ([Pub 1, Pub 2] ! 1) (Priv 2)"
    and k0: "toy_keypair ([Pub 1, Pub 2] ! 0) (Priv 1)"
    by simp_all
  have sm: "length [104, 101, 108, 108, 111, 32, 119, 111, 114, 108, 100 :: byte]
      + EVP_CIPHER_block_size toy Xor8 < 2 ^ 31"
    and sm0: "length ([] :: bytes) + EVP_CIPHER_block_size toy Xor8 < 2 ^ 31"
    by (simp_all add: bs)
  from Seal_Open_roundtrip [OF toy_inverse toy_bounded g sm s i1 k1, of "[9, 9, 9]" "replicate 24 9"]
    Seal_Open_roundtrip [OF toy_inverse toy_bounded g sm0 s0 i0 k0, of "[9, 9, 9]" "[]"]
    s s0 k1
  show ?thesis
    by (simp add: bs)
qed

text \<open>
  Claim C2. After every successful \<^verbatim>\<open>Seal\<close> the list of encrypted keys is as long as the list
  of public keys, and the entry at position \<open>i\<close> is what the library wrote for
  \<^verbatim>\<open>pub_keys[i]\<close>: the symmetric key wrapped under that key, cut to its reported length.
\<close>

theorem Seal_encrypted_keys_positional:
  assumes "Seal L cipher_name pub_keys plaintext rnd out = (None, out', calls)"
  shows "length (encrypted_keys_out out') = length pub_keys \<and>
         (\<forall>i<length pub_keys.
            encrypted_keys_out out' ! i = wrapped_key L cipher_name pub_keys rnd i)"
proof -
  from Seal_success [OF assms] obtain cipher ctx ek ivw ctx1 where
    g: "EVP_get_cipherbyname L cipher_name = Some cipher"
    and n: "EVP_CIPHER_CTX_new L = Some ctx"
    and i: "EVP_SealInit L ctx cipher pub_keys rnd = (int (length pub_keys), ek, ivw, ctx1)"
    and k: "encrypted_keys_out out' = map ek [0..<length pub_keys]"
    by blast
  from g n i have "wrapped_key L cipher_name pub_keys rnd = ek"
    by (simp add: wrapped_key_def fun_eq_iff)
  with k show ?thesis
    by simp
qed

theorem Seal_encrypted_keys_positional_witness:
  "Seal toy ''xor-8'' [Pub 1, Pub 2] [104, 101, 108, 108, 111] [7, 1, 2, 3, 4, 5, 6, 7, 8] empty_out =
     (None,
      \<lparr>encrypted_keys_out = [[1, 6], [2, 5]], iv_out = [1, 2, 3, 4, 5, 6, 7, 8],
       ciphertext_out = [103, 106, 99, 99, 96, 12, 12, 12]\<rparr>,
      [CTX_new, SealInit, SealUpdate, SealFinal, CTX_free]) \<and>
   length [[1, 6], [2, 5 :: byte]] = length [Pub 1, Pub 2] \<and>
   wrapped_key toy ''xor-8'' [Pub 1, Pub 2] [7, 1, 2, 3, 4, 5, 6, 7, 8] 0 = [1, 6] \<and>
   wrapped_key toy ''xor-8'' [Pub 1, Pub 2] [7, 1, 2, 3, 4, 5, 6, 7, 8] 1 = [2, 5]"
proof -
  have s: "Seal toy ''xor-8'' [Pub 1, Pub 2] [104, 101, 108, 108, 111] [7, 1, 2, 3, 4, 5, 6, 7, 8] empty_out =
     (None,
      \<lparr>encrypted_keys_out = [[1, 6], [2, 5]], iv_out = [1, 2, 3, 4, 5, 6, 7, 8],
       ciphertext_out = [103, 106, 99, 99, 96, 12, 12, 12]\<rparr>,
      [CTX_new, SealInit, SealUpdate, SealFinal, CTX_free])"
    by code_simp
  note t = Seal_encrypted_keys_positional [OF s, THEN conjunct2, rule_format]
  from t [of 0] t [of 1]
  have "wrapped_key toy ''xor-8'' [Pub 1, Pub 2] [7, 1, 2, 3, 4, 5, 6, 7, 8] 0 = [1, 6]"
    and "wrapped_key toy ''xor-8'' [Pub 1, Pub 2] [7, 1, 2, 3, 4, 5, 6, 7, 8] 1 = [2, 5]"
    by simp_all
  with s show ?thesis
    by simp
qed

text \<open>
  Claim C3 says that a private key that does not match is always refused. The code
  compares no keys: it tests three return values of the library. With a key transport that
  cannot tell a wrong key and a cipher without padding the library reports no failure,
  and \<^verbatim>\<open>Open\<close> with the private key of somebody else returns, with bytes that are not the
  sealed plaintext.
\<close>

theorem Open_wrong_key_returns_counterexample:
  "Seal toy_stream ''xor-stream'' [Pub 1] [104, 101, 108, 108, 111]
     [7, 1, 2, 3, 4, 5, 6, 7, 8] empty_out =
     (None,
      \<lparr>encrypted_keys_out = [[6]], iv_out = [1, 2, 3, 4, 5, 6, 7, 8],
       ciphertext_out = [103, 106, 99, 99, 96]\<rparr>,
      [CTX_new, SealInit, SealUpdate, SealFinal, CTX_free]) \<and>
   \<not> toy_keypair (Pub 1) (Priv 2) \<and>
   Open_vector toy_stream ''xor-stream'' (Priv 2) [103, 106, 99, 99, 96] [6]
     [1, 2, 3, 4, 5, 6, 7, 8] [] =
     (None, [107, 102, 111, 111, 108], [CTX_new, OpenInit, OpenUpdate, OpenFinal, CTX_free])"
  by code_simp

text \<open>
  Claim C3, as the code has it. For a call of \<^verbatim>\<open>Open\<close> with a known cipher name, an IV of
  the right length and a context, the exception without a message
  (\<open>CryptoOperationFailed\<close>) is thrown exactly when the library reports a failure: when
  \<^verbatim>\<open>EVP_OpenInit\<close> returns 0 or \<^verbatim>\<open>EVP_OpenUpdate\<close> or \<^verbatim>\<open>EVP_OpenFinal\<close> does not return 1. A
  private key that does not match is refused when the library notices it, at the
  unwrapping of the key or at the check of the padding, and not otherwise: when the three
  calls succeed the vector overload returns the bytes the library decrypted, whatever
  the key was.
\<close>

theorem Open_throws_iff_library_fails:
  assumes cn: "EVP_get_cipherbyname L cipher_name = Some cipher"
    and il: "length iv = EVP_CIPHER_iv_length L cipher"
    and n: "EVP_CIPHER_CTX_new L = Some ctx"
    and oi: "EVP_OpenInit L ctx cipher encrypted_key iv priv_key = (q, dx1)"
    and ou: "EVP_OpenUpdate L dx1 ciphertext (to_int (length ciphertext)) = (q1, p, dx2)"
    and ofi: "EVP_OpenFinal L dx2 = (q2, p')"
  shows "(fst (Open_buffer L cipher_name priv_key ciphertext encrypted_key iv buf) =
            Inl (OpenSSLException '''') \<longleftrightarrow> q = 0 \<or> q1 \<noteq> 1 \<or> q2 \<noteq> 1) \<and>
         (fst (Open_vector L cipher_name priv_key ciphertext encrypted_key iv v) =
            Some (OpenSSLException '''') \<longleftrightarrow> q = 0 \<or> q1 \<noteq> 1 \<or> q2 \<noteq> 1) \<and>
         (q \<noteq> 0 \<and> q1 = 1 \<and> q2 = 1 \<and>
          length p + length p' \<le> length ciphertext + EVP_CIPHER_block_size L cipher \<and>
          length p + length p' < 2 ^ 31 \<longrightarrow>
          Open_vector L cipher_name priv_key ciphertext encrypted_key iv v =
            (None, p @ p', [CTX_new, OpenInit, OpenUpdate, OpenFinal, CTX_free]))"
proof -
  let ?cap = "length ciphertext + EVP_CIPHER_block_size L cipher"
  have core: "fst (Open_cipher L cipher priv_key ciphertext encrypted_key iv b) =
      Inl (OpenSSLException '''') \<longleftrightarrow> q = 0 \<or> q1 \<noteq> 1 \<or> q2 \<noteq> 1" for b
    using il n oi ou ofi
    by (auto simp: Open_cipher_def Let_def LogAndThrowOpenSSLError_def)
  obtain r w past cs where
    rv: "Open_cipher L cipher priv_key ciphertext encrypted_key iv (resize ?cap 0 v) =
           (r, w, past, cs)"
    by (cases "Open_cipher L cipher priv_key ciphertext encrypted_key iv (resize ?cap 0 v)") auto
  obtain r' w' past' cs' where
    rb: "Open_cipher L cipher priv_key ciphertext encrypted_key iv buf = (r', w', past', cs')"
    by (cases "Open_cipher L cipher priv_key ciphertext encrypted_key iv buf") auto
  from core [of buf] cn rb
  have b: "fst (Open_buffer L cipher_name priv_key ciphertext encrypted_key iv buf) =
            Inl (OpenSSLException '''') \<longleftrightarrow> q = 0 \<or> q1 \<noteq> 1 \<or> q2 \<noteq> 1"
    by (simp add: Open_buffer_def)
  from core [of "resize ?cap 0 v"] cn rv
  have ve: "fst (Open_vector L cipher_name priv_key ciphertext encrypted_key iv v) =
            Some (OpenSSLException '''') \<longleftrightarrow> q = 0 \<or> q1 \<noteq> 1 \<or> q2 \<noteq> 1"
    by (cases r) (simp_all add: Open_vector_def Let_def)
  have ok: "Open_vector L cipher_name priv_key ciphertext encrypted_key iv v =
            (None, p @ p', [CTX_new, OpenInit, OpenUpdate, OpenFinal, CTX_free])"
    if "q \<noteq> 0" "q1 = 1" "q2 = 1" "length p + length p' \<le> ?cap" "length p + length p' < 2 ^ 31"
  proof -
    from that(4) have "length p + length p' \<le> length (resize ?cap 0 v)"
      by (simp add: length_resize)
    from Open_cipher_run [OF il n oi that(1) _ _ this that(5)] ou ofi that(2,3) cn
    show ?thesis
      by (simp add: Open_vector_def Let_def) (simp add: resize_def)
  qed
  from b ve ok show ?thesis
    by blast
qed

theorem Open_throws_iff_library_fails_witness:
  "EVP_get_cipherbyname toy ''xor-8'' = Some Xor8 \<and>
   length [1, 2, 3, 4, 5, 6, 7, 8 :: byte] = EVP_CIPHER_iv_length toy Xor8 \<and>
   EVP_CIPHER_CTX_new toy = Some Fresh \<and>
   EVP_OpenInit toy Fresh Xor8 [2, 5] [1, 2, 3, 4, 5, 6, 7, 8] (Priv 1) = (0, Dead) \<and>
   fst (Open_vector toy ''xor-8'' (Priv 1) [103, 106, 99, 99, 96, 12, 12, 12] [2, 5]
          [1, 2, 3, 4, 5, 6, 7, 8] []) = Some (OpenSSLException '''') \<and>
   fst (Open_buffer toy ''xor-8'' (Priv 1) [103, 106, 99, 99, 96, 12, 12, 12] [2, 5]
          [1, 2, 3, 4, 5, 6, 7, 8] [9, 9]) = Inl (OpenSSLException '''') \<and>
   EVP_get_cipherbyname toy_stream ''xor-stream'' = Some Xor8 \<and>
   EVP_OpenInit toy_stream Fresh Xor8 [6] [1, 2, 3, 4, 5, 6, 7, 8] (Priv 2) = (1, Dec 12 []) \<and>
   Open_vector toy_stream ''xor-stream'' (Priv 2) [103, 106, 99, 99, 96] [6]
     [1, 2, 3, 4, 5, 6, 7, 8] [] =
     (None, [107, 102, 111, 111, 108], [CTX_new, OpenInit, OpenUpdate, OpenFinal, CTX_free])"
proof -
  have g: "EVP_get_cipherbyname toy ''xor-8'' = Some Xor8"
    and il: "length [1, 2, 3, 4, 5, 6, 7, 8 :: byte] = EVP_CIPHER_iv_length toy Xor8"
    and n: "EVP_CIPHER_CTX_new toy = Some Fresh"
    by (simp_all add: toy_def)
  have oi: "EVP_OpenInit toy Fresh Xor8 [2, 5] [1, 2, 3, 4, 5, 6, 7, 8] (Priv 1) = (0, Dead)"
    by code_simp
  have ou: "EVP_OpenUpdate toy Dead [103, 106, 99, 99, 96, 12, 12, 12]
              (to_int (length [103, 106, 99, 99, 96, 12, 12, 12 :: byte])) = (0, [], Dead)"
    by code_simp
  have ofi: "EVP_OpenFinal toy Dead = (0, [])"
    by code_simp
  note t = Open_throws_iff_library_fails [OF g il n oi ou ofi, where buf = "[9, 9]" and v = "[]"]
  from t [THEN conjunct1]
  have a: "fst (Open_buffer toy ''xor-8'' (Priv 1) [103, 106, 99, 99, 96, 12, 12, 12] [2, 5]
          [1, 2, 3, 4, 5, 6, 7, 8] [9, 9]) = Inl (OpenSSLException '''')"
    by simp
  from t [THEN conjunct2, THEN conjunct1]
  have b: "fst (Open_vector toy ''xor-8'' (Priv 1) [103, 106, 99, 99, 96, 12, 12, 12] [2, 5]
          [1, 2, 3, 4, 5, 6, 7, 8] []) = Some (OpenSSLException '''')"
    by simp
  have g': "EVP_get_cipherbyname toy_stream ''xor-stream'' = Some Xor8"
    and il': "length [1, 2, 3, 4, 5, 6, 7, 8 :: byte] = EVP_CIPHER_iv_length toy_stream Xor8"
    and n': "EVP_CIPHER_CTX_new toy_stream = Some Fresh"
    and bs': "EVP_CIPHER_block_size toy_stream Xor8 = 1"
    by (simp_all add: toy_stream_def)
  have oi': "EVP_OpenInit toy_stream Fresh Xor8 [6] [1, 2, 3, 4, 5, 6, 7, 8] (Priv 2) =
              (1, Dec 12 [])"
    by code_simp
  have ou': "EVP_OpenUpdate toy_stream (Dec 12 []) [103, 106, 99, 99, 96]
              (to_int (length [103, 106, 99, 99, 96 :: byte])) =
              (1, [107, 102, 111, 111, 108], Dec 12 [])"
    by code_simp
  have ofi': "EVP_OpenFinal toy_stream (Dec 12 []) = (1, [])"
    by code_simp
  from Open_throws_iff_library_fails [OF g' il' n' oi' ou' ofi', where v = "[]",
      THEN conjunct2, THEN conjunct2]
  have c: "Open_vector toy_stream ''xor-stream'' (Priv 2) [103, 106, 99, 99, 96] [6]
     [1, 2, 3, 4, 5, 6, 7, 8] [] =
     (None, [107, 102, 111, 111, 108], [CTX_new, OpenInit, OpenUpdate, OpenFinal, CTX_free])"
    by (simp add: bs')
  from g il n oi a b g' oi' c show ?thesis
    by (intro conjI)
qed

text \<open>
  Claim C4 asks for a typed error \<open>InvalidIVLength\<close>. With a two-byte IV for a cipher with
  IVs of eight bytes the call ends in the failed assertion, which is not thrown to the
  caller.
\<close>

theorem Open_iv_length_typed_error_counterexample:
  "Open_buffer toy ''xor-8'' (Priv 1) [7, 7, 7, 7, 7, 7, 7, 7] [1, 6] [1, 2]
     [9, 9, 9, 9, 9, 9, 9, 9, 9, 9, 9, 9, 9, 9, 9, 9] =
     (Inl AssertionFailure, [9, 9, 9, 9, 9, 9, 9, 9, 9, 9, 9, 9, 9, 9, 9, 9], []) \<and>
   \<not> thrown AssertionFailure"
  by code_simp

text \<open>
  Claim C4, as the code has it. The check of the IV length is an \<^verbatim>\<open>assert\<close> at the start of
  the overload that takes the resolved cipher. When the length of the IV differs from the
  IV length of the cipher, a call with a known cipher name stops there, before a context
  is created and before any library call: a hard fault of the program, no exception that
  reaches the caller. The buffer is untouched; the vector has already been sized.
\<close>

theorem Open_iv_length_asserted:
  assumes "EVP_get_cipherbyname L cipher_name = Some cipher"
    and "length iv \<noteq> EVP_CIPHER_iv_length L cipher"
  shows "Open_buffer L cipher_name priv_key ciphertext encrypted_key iv buf =
           (Inl AssertionFailure, buf, []) \<and>
         Open_vector L cipher_name priv_key ciphertext encrypted_key iv v =
           (Some AssertionFailure,
            resize (length ciphertext + EVP_CIPHER_block_size L cipher) 0 v, []) \<and>
         \<not> thrown AssertionFailure"
  using assms
  by (simp add: Open_buffer_def Open_vector_def Open_cipher_def Let_def)

theorem Open_iv_length_asserted_witness:
  "EVP_get_cipherbyname toy ''xor-8'' = Some Xor8 \<and>
   length [1, 2 :: byte] \<noteq> EVP_CIPHER_iv_length toy Xor8 \<and>
   Open_buffer toy ''xor-8'' (Priv 1) [7, 7, 7, 7, 7, 7, 7, 7] [1, 6] [1, 2] [9, 9] =
     (Inl AssertionFailure, [9, 9], []) \<and>
   Open_vector toy ''xor-8'' (Priv 1) [7, 7, 7, 7, 7, 7, 7, 7] [1, 6] [1, 2] [9, 9] =
     (Some AssertionFailure, [9, 9, 0, 0, 0, 0, 0, 0, 0, 0, 0, 0, 0, 0, 0, 0], [])"
proof -
  have g: "EVP_get_cipherbyname toy ''xor-8'' = Some Xor8"
    by (simp add: toy_def)
  have l: "length [1, 2 :: byte] \<noteq> EVP_CIPHER_iv_length toy Xor8"
    by (simp add: toy_def)
  have r: "resize (length [7, 7, 7, 7, 7, 7, 7, 7 :: byte] + EVP_CIPHER_block_size toy Xor8) 0
             [9, 9 :: byte] = [9, 9, 0, 0, 0, 0, 0, 0, 0, 0, 0, 0, 0, 0, 0, 0]"
    by code_simp
  from Open_iv_length_asserted [OF g l, of "Priv 1" "[7, 7, 7, 7, 7, 7, 7, 7]" "[1, 6]"
      "[9, 9]" "[9, 9]"] g l r
  show ?thesis
    by simp
qed

text \<open>
  Claim C5 says that after a failure the output parameters hold no partially written
  data. With a second public key that the library cannot use, \<^verbatim>\<open>EVP_SealInit\<close> fails after
  it has written the IV and the wrapped key of the first recipient, and both are left in
  the caller's vectors.
\<close>

theorem Seal_failure_partial_output_counterexample:
  "Seal toy ''xor-8'' [Pub 1, Broken] [1, 2, 3] [7, 1, 2, 3, 4, 5, 6, 7, 8] empty_out =
     (Some (OpenSSLException ''''),
      \<lparr>encrypted_keys_out = [[1, 6, 0, 0], [0, 0, 0, 0]],
       iv_out = [1, 2, 3, 4, 5, 6, 7, 8],
       ciphertext_out = [0, 0, 0, 0, 0, 0, 0, 0, 0, 0, 0]\<rparr>,
      [CTX_new, SealInit, CTX_free])"
  by code_simp

text \<open>
  Claim C5, as the code has it. For a known cipher and a non-empty key list: when no
  context can be created, when \<^verbatim>\<open>EVP_SealInit\<close> does not return the number of keys, when
  \<^verbatim>\<open>EVP_SealUpdate\<close> does not return 1 or when \<^verbatim>\<open>EVP_SealFinal\<close> does not return 1, \<^verbatim>\<open>Seal\<close>
  throws the exception without a message at that step and returns nothing. The output
  vectors are not restored: they are left as they were sized before the first library
  call, with every byte the library has written into them up to and including the
  failing call.
\<close>

theorem Seal_failure_keeps_partial_output:
  assumes cn: "EVP_get_cipherbyname L cipher_name = Some cipher"
    and pos: "0 < length pub_keys"
  shows "(EVP_CIPHER_CTX_new L = None \<longrightarrow>
            Seal L cipher_name pub_keys plaintext rnd out =
              (Some (OpenSSLException ''''), Seal_sizes L cipher pub_keys plaintext out,
               [CTX_new])) \<and>
         (EVP_CIPHER_CTX_new L = Some ctx \<and>
          EVP_SealInit L ctx cipher pub_keys rnd = (r, ek, ivw, ctx1) \<and>
          EVP_SealUpdate L ctx1 plaintext (to_int (length plaintext)) = (r1, w, ctx2) \<and>
          EVP_SealFinal L ctx2 = (r2, w') \<and>
          S = SealInit_writes (Seal_sizes L cipher pub_keys plaintext out) (length pub_keys) ek ivw
          \<longrightarrow>
            (r \<noteq> int (length pub_keys) \<longrightarrow>
               Seal L cipher_name pub_keys plaintext rnd out =
                 (Some (OpenSSLException ''''), S, [CTX_new, SealInit, CTX_free])) \<and>
            (r = int (length pub_keys) \<and> r1 \<noteq> 1 \<longrightarrow>
               Seal L cipher_name pub_keys plaintext rnd out =
                 (Some (OpenSSLException ''''),
                  S\<lparr>ciphertext_out := poke (ciphertext_out S) 0 w\<rparr>,
                  [CTX_new, SealInit, SealUpdate, CTX_free])) \<and>
            (r = int (length pub_keys) \<and> r1 = 1 \<and> r2 \<noteq> 1 \<longrightarrow>
               Seal L cipher_name pub_keys plaintext rnd out =
                 (Some (OpenSSLException ''''),
                  S\<lparr>ciphertext_out :=
                      poke_at (poke (ciphertext_out S) 0 w) (to_int (length w)) w'\<rparr>,
                  [CTX_new, SealInit, SealUpdate, SealFinal, CTX_free])))"
  using cn pos
  by (simp add: Seal_def Seal_init_def Seal_stream_def Let_def LogAndThrowOpenSSLError_def)

theorem Seal_failure_keeps_partial_output_witness:
  "Seal toy_no_ctx ''xor-8'' [Pub 1] [1, 2, 3] [7, 1, 2, 3, 4, 5, 6, 7, 8] empty_out =
      (Some (OpenSSLException ''''),
       \<lparr>encrypted_keys_out = [[0, 0, 0, 0]], iv_out = [0, 0, 0, 0, 0, 0, 0, 0], ciphertext_out = [0, 0, 0, 0, 0, 0, 0, 0, 0, 0, 0]\<rparr>,
       [CTX_new]) \<and>
   Seal toy ''xor-8'' [Pub 1, Broken] [1, 2, 3] [7, 1, 2, 3, 4, 5, 6, 7, 8] empty_out =
      (Some (OpenSSLException ''''),
       \<lparr>encrypted_keys_out = [[1, 6, 0, 0], [0, 0, 0, 0]], iv_out = [1, 2, 3, 4, 5, 6, 7, 8], ciphertext_out = [0, 0, 0, 0, 0, 0, 0, 0, 0, 0, 0]\<rparr>,
       [CTX_new, SealInit, CTX_free]) \<and>
   Seal toy_update_fails ''xor-8'' [Pub 1] [1, 2, 3] [7, 1, 2, 3, 4, 5, 6, 7, 8] empty_out =
      (Some (OpenSSLException ''''),
       \<lparr>encrypted_keys_out = [[1, 6, 0, 0]], iv_out = [1, 2, 3, 4, 5, 6, 7, 8], ciphertext_out = [0, 0, 0, 0, 0, 0, 0, 0, 0, 0, 0]\<rparr>,
       [CTX_new, SealInit, SealUpdate, CTX_free]) \<and>
   Seal toy_final_fails ''xor-8'' [Pub 1] [1, 2, 3, 4, 5, 6, 7, 8, 9] [7, 1, 2, 3, 4, 5, 6, 7, 8] empty_out =
      (Some (OpenSSLException ''''),
       \<lparr>encrypted_keys_out = [[1, 6, 0, 0]], iv_out = [1, 2, 3, 4, 5, 6, 7, 8], ciphertext_out = [14, 13, 12, 11, 10, 9, 8, 7, 1, 2, 3, 0, 0, 0, 0, 0, 0]\<rparr>,
       [CTX_new, SealInit, SealUpdate, SealFinal, CTX_free])"
proof -
  have gD: "EVP_get_cipherbyname toy_no_ctx ''xor-8'' = Some Xor8"
    and nD: "EVP_CIPHER_CTX_new toy_no_ctx = None"
    by (simp_all add: toy_no_ctx_def toy_def)
  have pD: "0 < length [Pub 1]"
    by simp
  have sD: "Seal_sizes toy_no_ctx Xor8 [Pub 1] [1, 2, 3] empty_out =
      \<lparr>encrypted_keys_out = [[0, 0, 0, 0]], iv_out = [0, 0, 0, 0, 0, 0, 0, 0], ciphertext_out = [0, 0, 0, 0, 0, 0, 0, 0, 0, 0, 0]\<rparr>"
    by code_simp
  from Seal_failure_keeps_partial_output [OF gD pD, THEN conjunct1, rule_format, OF nD] sD
  have rD: "Seal toy_no_ctx ''xor-8'' [Pub 1] [1, 2, 3] [7, 1, 2, 3, 4, 5, 6, 7, 8] empty_out =
      (Some (OpenSSLException ''''),
       \<lparr>encrypted_keys_out = [[0, 0, 0, 0]], iv_out = [0, 0, 0, 0, 0, 0, 0, 0], ciphertext_out = [0, 0, 0, 0, 0, 0, 0, 0, 0, 0, 0]\<rparr>,
       [CTX_new])"
    by simp
  have gA: "EVP_get_cipherbyname toy ''xor-8'' = Some Xor8"
    and nA: "EVP_CIPHER_CTX_new toy = Some Fresh"
    by (simp_all add: toy_def)
  have pA: "0 < length [Pub 1, Broken]"
    by simp
  have cA0: "fst (EVP_SealInit toy Fresh Xor8 [Pub 1, Broken] [7, 1, 2, 3, 4, 5, 6, 7, 8]) \<noteq> int (length [Pub 1, Broken])"
    by code_simp
  have sA: "SealInit_writes (Seal_sizes toy Xor8 [Pub 1, Broken] [1, 2, 3] empty_out) (length [Pub 1, Broken]) (fst (snd (EVP_SealInit toy Fresh Xor8 [Pub 1, Broken] [7, 1, 2, 3, 4, 5, 6, 7, 8]))) (fst (snd (snd (EVP_SealInit toy Fresh Xor8 [Pub 1, Broken] [7, 1, 2, 3, 4, 5, 6, 7, 8])))) =
      \<lparr>encrypted_keys_out = [[1, 6, 0, 0], [0, 0, 0, 0]], iv_out = [1, 2, 3, 4, 5, 6, 7, 8], ciphertext_out = [0, 0, 0, 0, 0, 0, 0, 0, 0, 0, 0]\<rparr>"
    by code_simp
  have hA: "EVP_CIPHER_CTX_new toy = Some Fresh \<and>
      EVP_SealInit toy Fresh Xor8 [Pub 1, Broken] [7, 1, 2, 3, 4, 5, 6, 7, 8] =
        (fst (EVP_SealInit toy Fresh Xor8 [Pub 1, Broken] [7, 1, 2, 3, 4, 5, 6, 7, 8]), fst (snd (EVP_SealInit toy Fresh Xor8 [Pub 1, Broken] [7, 1, 2, 3, 4, 5, 6, 7, 8])), fst (snd (snd (EVP_SealInit toy Fresh Xor8 [Pub 1, Broken] [7, 1, 2, 3, 4, 5, 6, 7, 8]))), snd (snd (snd (EVP_SealInit toy Fresh Xor8 [Pub 1, Broken] [7, 1, 2, 3, 4, 5, 6, 7, 8])))) \<and>
      EVP_SealUpdate toy (snd (snd (snd (EVP_SealInit toy Fresh Xor8 [Pub 1, Broken] [7, 1, 2, 3, 4, 5, 6, 7, 8])))) [1, 2, 3] (to_int (length ([1, 2, 3] :: bytes))) =
        (fst (EVP_SealUpdate toy (snd (snd (snd (EVP_SealInit toy Fresh Xor8 [Pub 1, Broken] [7, 1, 2, 3, 4, 5, 6, 7, 8])))) [1, 2, 3] (to_int (length ([1, 2, 3] :: bytes)))), fst (snd (EVP_SealUpdate toy (snd (snd (snd (EVP_SealInit toy Fresh Xor8 [Pub 1, Broken] [7, 1, 2, 3, 4, 5, 6, 7, 8])))) [1, 2, 3] (to_int (length ([1, 2, 3] :: bytes))))), snd (snd (EVP_SealUpdate toy (snd (snd (snd (EVP_SealInit toy Fresh Xor8 [Pub 1, Broken] [7, 1, 2, 3, 4, 5, 6, 7, 8])))) [1, 2, 3] (to_int (length ([1, 2, 3] :: bytes)))))) \<and>
      EVP_SealFinal toy (snd (snd (EVP_SealUpdate toy (snd (snd (snd (EVP_SealInit toy Fresh Xor8 [Pub 1, Broken] [7, 1, 2, 3, 4, 5, 6, 7, 8])))) [1, 2, 3] (to_int (length ([1, 2, 3] :: bytes)))))) = (fst (EVP_SealFinal toy (snd (snd (EVP_SealUpdate toy (snd (snd (snd (EVP_SealInit toy Fresh Xor8 [Pub 1, Broken] [7, 1, 2, 3, 4, 5, 6, 7, 8])))) [1, 2, 3] (to_int (length ([1, 2, 3] :: bytes))))))), snd (EVP_SealFinal toy (snd (snd (EVP_SealUpdate toy (snd (snd (snd (EVP_SealInit toy Fresh Xor8 [Pub 1, Broken] [7, 1, 2, 3, 4, 5, 6, 7, 8])))) [1, 2, 3] (to_int (length ([1, 2, 3] :: bytes)))))))) \<and>
      SealInit_writes (Seal_sizes toy Xor8 [Pub 1, Broken] [1, 2, 3] empty_out) (length [Pub 1, Broken]) (fst (snd (EVP_SealInit toy Fresh Xor8 [Pub 1, Broken] [7, 1, 2, 3, 4, 5, 6, 7, 8]))) (fst (snd (snd (EVP_SealInit toy Fresh Xor8 [Pub 1, Broken] [7, 1, 2, 3, 4, 5, 6, 7, 8])))) = SealInit_writes (Seal_sizes toy Xor8 [Pub 1, Broken] [1, 2, 3] empty_out) (length [Pub 1, Broken]) (fst (snd (EVP_SealInit toy Fresh Xor8 [Pub 1, Broken] [7, 1, 2, 3, 4, 5, 6, 7, 8]))) (fst (snd (snd (EVP_SealInit toy Fresh Xor8 [Pub 1, Broken] [7, 1, 2, 3, 4, 5, 6, 7, 8]))))"
    using nA by simp
  from Seal_failure_keeps_partial_output [OF gA pA, THEN conjunct2, rule_format, OF hA,
      THEN conjunct1, rule_format] cA0 sA
  have rA: "Seal toy ''xor-8'' [Pub 1, Broken] [1, 2, 3] [7, 1, 2, 3, 4, 5, 6, 7, 8] empty_out =
      (Some (OpenSSLException ''''),
       \<lparr>encrypted_keys_out = [[1, 6, 0, 0], [0, 0, 0, 0]], iv_out = [1, 2, 3, 4, 5, 6, 7, 8], ciphertext_out = [0, 0, 0, 0, 0, 0, 0, 0, 0, 0, 0]\<rparr>,
       [CTX_new, SealInit, CTX_free])"
    by simp
  have gB: "EVP_get_cipherbyname toy_update_fails ''xor-8'' = Some Xor8"
    and nB: "EVP_CIPHER_CTX_new toy_update_fails = Some Fresh"
    by (simp_all add: toy_update_fails_def toy_def)
  have pB: "0 < length [Pub 1]"
    by simp
  have cB0: "fst (EVP_SealInit toy_update_fails Fresh Xor8 [Pub 1] [7, 1, 2, 3, 4, 5, 6, 7, 8]) = int (length [Pub 1])"
    by code_simp
  have cB1: "fst (EVP_SealUpdate toy_update_fails (snd (snd (snd (EVP_SealInit toy_update_fails Fresh Xor8 [Pub 1] [7, 1, 2, 3, 4, 5, 6, 7, 8])))) [1, 2, 3] (to_int (length ([1, 2, 3] :: bytes)))) \<noteq> 1"
    by code_simp
  have sB: "(SealInit_writes (Seal_sizes toy_update_fails Xor8 [Pub 1] [1, 2, 3] empty_out) (length [Pub 1]) (fst (snd (EVP_SealInit toy_update_fails Fresh Xor8 [Pub 1] [7, 1, 2, 3, 4, 5, 6, 7, 8]))) (fst (snd (snd (EVP_SealInit toy_update_fails Fresh Xor8 [Pub 1] [7, 1, 2, 3, 4, 5, 6, 7, 8])))))\<lparr>ciphertext_out := poke (ciphertext_out (SealInit_writes (Seal_sizes toy_update_fails Xor8 [Pub 1] [1, 2, 3] empty_out) (length [Pub 1]) (fst (snd (EVP_SealInit toy_update_fails Fresh Xor8 [Pub 1] [7, 1, 2, 3, 4, 5, 6, 7, 8]))) (fst (snd (snd (EVP_SealInit toy_update_fails Fresh Xor8 [Pub 1] [7, 1, 2, 3, 4, 5, 6, 7, 8])))))) 0 (fst (snd (EVP_SealUpdate toy_update_fails (snd (snd (snd (EVP_SealInit toy_update_fails Fresh Xor8 [Pub 1] [7, 1, 2, 3, 4, 5, 6, 7, 8])))) [1, 2, 3] (to_int (length ([1, 2, 3] :: bytes))))))\<rparr> =
      \<lparr>encrypted_keys_out = [[1, 6, 0, 0]], iv_out = [1, 2, 3, 4, 5, 6, 7, 8], ciphertext_out = [0, 0, 0, 0, 0, 0, 0, 0, 0, 0, 0]\<rparr>"
    by code_simp
  have hB: "EVP_CIPHER_CTX_new toy_update_fails = Some Fresh \<and>
      EVP_SealInit toy_update_fails Fresh Xor8 [Pub 1] [7, 1, 2, 3, 4, 5, 6, 7, 8] =
        (fst (EVP_SealInit toy_update_fails Fresh Xor8 [Pub 1] [7, 1, 2, 3, 4, 5, 6, 7, 8]), fst (snd (EVP_SealInit toy_update_fails Fresh Xor8 [Pub 1] [7, 1, 2, 3, 4, 5, 6, 7, 8])), fst (snd (snd (EVP_SealInit toy_update_fails Fresh Xor8 [Pub 1] [7, 1, 2, 3, 4, 5, 6, 7, 8]))), snd (snd (snd (EVP_SealInit toy_update_fails Fresh Xor8 [Pub 1] [7, 1, 2, 3, 4, 5, 6, 7, 8])))) \<and>
      EVP_SealUpdate toy_update_fails (snd (snd (snd (EVP_SealInit toy_update_fails Fresh Xor8 [Pub 1] [7, 1, 2, 3, 4, 5, 6, 7, 8])))) [1, 2, 3] (to_int (length ([1, 2, 3] :: bytes))) =
        (fst (EVP_SealUpdate toy_update_fails (snd (snd (snd (EVP_SealInit toy_update_fails Fresh Xor8 [Pub 1] [7, 1, 2, 3, 4, 5, 6, 7, 8])))) [1, 2, 3] (to_int (length ([1, 2, 3] :: bytes)))), fst (snd (EVP_SealUpdate toy_update_fails (snd (snd (snd (EVP_SealInit toy_update_fails Fresh Xor8 [Pub 1] [7, 1, 2, 3, 4, 5, 6, 7, 8])))) [1, 2, 3] (to_int (length ([1, 2, 3] :: bytes))))), snd (snd (EVP_SealUpdate toy_update_fails (snd (snd (snd (EVP_SealInit toy_update_fails Fresh Xor8 [Pub 1] [7, 1, 2, 3, 4, 5, 6, 7, 8])))) [1, 2, 3] (to_int (length ([1, 2, 3] :: bytes)))))) \<and>
      EVP_SealFinal toy_update_fails (snd (snd (EVP_SealUpdate toy_update_fails (snd (snd (snd (EVP_SealInit toy_update_fails Fresh Xor8 [Pub 1] [7, 1, 2, 3, 4, 5, 6, 7, 8])))) [1, 2, 3] (to_int (length ([1, 2, 3] :: bytes)))))) = (fst (EVP_SealFinal toy_update_fails (snd (snd (EVP_SealUpdate toy_update_fails (snd (snd (snd (EVP_SealInit toy_update_fails Fresh Xor8 [Pub 1] [7, 1, 2, 3, 4, 5, 6, 7, 8])))) [1, 2, 3] (to_int (length ([1, 2, 3] :: bytes))))))), snd (EVP_SealFinal toy_update_fails (snd (snd (EVP_SealUpdate toy_update_fails (snd (snd (snd (EVP_SealInit toy_update_fails Fresh Xor8 [Pub 1] [7, 1, 2, 3, 4, 5, 6, 7, 8])))) [1, 2, 3] (to_int (length ([1, 2, 3] :: bytes)))))))) \<and>
      SealInit_writes (Seal_sizes toy_update_fails Xor8 [Pub 1] [1, 2, 3] empty_out) (length [Pub 1]) (fst (snd (EVP_SealInit toy_update_fails Fresh Xor8 [Pub 1] [7, 1, 2, 3, 4, 5, 6, 7, 8]))) (fst (snd (snd (EVP_SealInit toy_update_fails Fresh Xor8 [Pub 1] [7, 1, 2, 3, 4, 5, 6, 7, 8])))) = SealInit_writes (Seal_sizes toy_update_fails Xor8 [Pub 1] [1, 2, 3] empty_out) (length [Pub 1]) (fst (snd (EVP_SealInit toy_update_fails Fresh Xor8 [Pub 1] [7, 1, 2, 3, 4, 5, 6, 7, 8]))) (fst (snd (snd (EVP_SealInit toy_update_fails Fresh Xor8 [Pub 1] [7, 1, 2, 3, 4, 5, 6, 7, 8]))))"
    using nB by simp
  from Seal_failure_keeps_partial_output [OF gB pB, THEN conjunct2, rule_format, OF hB,
      THEN conjunct2, THEN conjunct1, rule_format] cB0 cB1 sB
  have rB: "Seal toy_update_fails ''xor-8'' [Pub 1] [1, 2, 3] [7, 1, 2, 3, 4, 5, 6, 7, 8] empty_out =
      (Some (OpenSSLException ''''),
       \<lparr>encrypted_keys_out = [[1, 6, 0, 0]], iv_out = [1, 2, 3, 4, 5, 6, 7, 8], ciphertext_out = [0, 0, 0, 0, 0, 0, 0, 0, 0, 0, 0]\<rparr>,
       [CTX_new, SealInit, SealUpdate, CTX_free])"
    by simp
  have gC: "EVP_get_cipherbyname toy_final_fails ''xor-8'' = Some Xor8"
    and nC: "EVP_CIPHER_CTX_new toy_final_fails = Some Fresh"
    by (simp_all add: toy_final_fails_def toy_def)
  have pC: "0 < length [Pub 1]"
    by simp
  have cC0: "fst (EVP_SealInit toy_final_fails Fresh Xor8 [Pub 1] [7, 1, 2, 3, 4, 5, 6, 7, 8]) = int (length [Pub 1])"
    by code_simp
  have cC1: "fst (EVP_SealUpdate toy_final_fails (snd (snd (snd (EVP_SealInit toy_final_fails Fresh Xor8 [Pub 1] [7, 1, 2, 3, 4, 5, 6, 7, 8])))) [1, 2, 3, 4, 5, 6, 7, 8, 9] (to_int (length ([1, 2, 3, 4, 5, 6, 7, 8, 9] :: bytes)))) = 1"
    by code_simp
  have cC2: "fst (EVP_SealFinal toy_final_fails (snd (snd (EVP_SealUpdate toy_final_fails (snd (snd (snd (EVP_SealInit toy_final_fails Fresh Xor8 [Pub 1] [7, 1, 2, 3, 4, 5, 6, 7, 8])))) [1, 2, 3, 4, 5, 6, 7, 8, 9] (to_int (length ([1, 2, 3, 4, 5, 6, 7, 8, 9] :: bytes))))))) \<noteq> 1"
    by code_simp
  have sC: "(SealInit_writes (Seal_sizes toy_final_fails Xor8 [Pub 1] [1, 2, 3, 4, 5, 6, 7, 8, 9] empty_out) (length [Pub 1]) (fst (snd (EVP_SealInit toy_final_fails Fresh Xor8 [Pub 1] [7, 1, 2, 3, 4, 5, 6, 7, 8]))) (fst (snd (snd (EVP_SealInit toy_final_fails Fresh Xor8 [Pub 1] [7, 1, 2, 3, 4, 5, 6, 7, 8])))))\<lparr>ciphertext_out := poke_at (poke (ciphertext_out (SealInit_writes (Seal_sizes toy_final_fails Xor8 [Pub 1] [1, 2, 3, 4, 5, 6, 7, 8, 9] empty_out) (length [Pub 1]) (fst (snd (EVP_SealInit toy_final_fails Fresh Xor8 [Pub 1] [7, 1, 2, 3, 4, 5, 6, 7, 8]))) (fst (snd (snd (EVP_SealInit toy_final_fails Fresh Xor8 [Pub 1] [7, 1, 2, 3, 4, 5, 6, 7, 8])))))) 0 (fst (snd (EVP_SealUpdate toy_final_fails (snd (snd (snd (EVP_SealInit toy_final_fails Fresh Xor8 [Pub 1] [7, 1, 2, 3, 4, 5, 6, 7, 8])))) [1, 2, 3, 4, 5, 6, 7, 8, 9] (to_int (length ([1, 2, 3, 4, 5, 6, 7, 8, 9] :: bytes))))))) (to_int (length (fst (snd (EVP_SealUpdate toy_final_fails (snd (snd (snd (EVP_SealInit toy_final_fails Fresh Xor8 [Pub 1] [7, 1, 2, 3, 4, 5, 6, 7, 8])))) [1, 2, 3, 4, 5, 6, 7, 8, 9] (to_int (length ([1, 2, 3, 4, 5, 6, 7, 8, 9] :: bytes)))))))) (snd (EVP_SealFinal toy_final_fails (snd (snd (EVP_SealUpdate toy_final_fails (snd (snd (snd (EVP_SealInit toy_final_fails Fresh Xor8 [Pub 1] [7, 1, 2, 3, 4, 5, 6, 7, 8])))) [1, 2, 3, 4, 5, 6, 7, 8, 9] (to_int (length ([1, 2, 3, 4, 5, 6, 7, 8, 9] :: bytes))))))))\<rparr> =
      \<lparr>encrypted_keys_out = [[1, 6, 0, 0]], iv_out = [1, 2, 3, 4, 5, 6, 7, 8], ciphertext_out = [14, 13, 12, 11, 10, 9, 8, 7, 1, 2, 3, 0, 0, 0, 0, 0, 0]\<rparr>"
    by code_simp
  have hC: "EVP_CIPHER_CTX_new toy_final_fails = Some Fresh \<and>
      EVP_SealInit toy_final_fails Fresh Xor8 [Pub 1] [7, 1, 2, 3, 4, 5, 6, 7, 8] =
        (fst (EVP_SealInit toy_final_fails Fresh Xor8 [Pub 1] [7, 1, 2, 3, 4, 5, 6, 7, 8]), fst (snd (EVP_SealInit toy_final_fails Fresh Xor8 [Pub 1] [7, 1, 2, 3, 4, 5, 6, 7, 8])), fst (snd (snd (EVP_SealInit toy_final_fails Fresh Xor8 [Pub 1] [7, 1, 2, 3, 4, 5, 6, 7, 8]))), snd (snd (snd (EVP_SealInit toy_final_fails Fresh Xor8 [Pub 1] [7, 1, 2, 3, 4, 5, 6, 7, 8])))) \<and>
      EVP_SealUpdate toy_final_fails (snd (snd (snd (EVP_SealInit toy_final_fails Fresh Xor8 [Pub 1] [7, 1, 2, 3, 4, 5, 6, 7, 8])))) [1, 2, 3, 4, 5, 6, 7, 8, 9] (to_int (length ([1, 2, 3, 4, 5, 6, 7, 8, 9] :: bytes))) =
        (fst (EVP_SealUpdate toy_final_fails (snd (snd (snd (EVP_SealInit toy_final_fails Fresh Xor8 [Pub 1] [7, 1, 2, 3, 4, 5, 6, 7, 8])))) [1, 2, 3, 4, 5, 6, 7, 8, 9] (to_int (length ([1, 2, 3, 4, 5, 6, 7, 8, 9] :: bytes)))), fst (snd (EVP_SealUpdate toy_final_fails (snd (snd (snd (EVP_SealInit toy_final_fails Fresh Xor8 [Pub 1] [7, 1, 2, 3, 4, 5, 6, 7, 8])))) [1, 2, 3, 4, 5, 6, 7, 8, 9] (to_int (length ([1, 2, 3, 4, 5, 6, 7, 8, 9] :: bytes))))), snd (snd (EVP_SealUpdate toy_final_fails (snd (snd (snd (EVP_SealInit toy_final_fails Fresh Xor8 [Pub 1] [7, 1, 2, 3, 4, 5, 6, 7, 8])))) [1, 2, 3, 4, 5, 6, 7, 8, 9] (to_int (length ([1, 2, 3, 4, 5, 6, 7, 8, 9] :: bytes)))))) \<and>
      EVP_SealFinal toy_final_fails (snd (snd (EVP_SealUpdate toy_final_fails (snd (snd (snd (EVP_SealInit toy_final_fails Fresh Xor8 [Pub 1] [7, 1, 2, 3, 4, 5, 6, 7, 8])))) [1, 2, 3, 4, 5, 6, 7, 8, 9] (to_int (length ([1, 2, 3, 4, 5, 6, 7, 8, 9] :: bytes)))))) = (fst (EVP_SealFinal toy_final_fails (snd (snd (EVP_SealUpdate toy_final_fails (snd (snd (snd (EVP_SealInit toy_final_fails Fresh Xor8 [Pub 1] [7, 1, 2, 3, 4, 5, 6, 7, 8])))) [1, 2, 3, 4, 5, 6, 7, 8, 9] (to_int (length ([1, 2, 3, 4, 5, 6, 7, 8, 9] :: bytes))))))), snd (EVP_SealFinal toy_final_fails (snd (snd (EVP_SealUpdate toy_final_fails (snd (snd (snd (EVP_SealInit toy_final_fails Fresh Xor8 [Pub 1] [7, 1, 2, 3, 4, 5, 6, 7, 8])))) [1, 2, 3, 4, 5, 6, 7, 8, 9] (to_int (length ([1, 2, 3, 4, 5, 6, 7, 8, 9] :: bytes)))))))) \<and>
      SealInit_writes (Seal_sizes toy_final_fails Xor8 [Pub 1] [1, 2, 3, 4, 5, 6, 7, 8, 9] empty_out) (length [Pub 1]) (fst (snd (EVP_SealInit toy_final_fails Fresh Xor8 [Pub 1] [7, 1, 2, 3, 4, 5, 6, 7, 8]))) (fst (snd (snd (EVP_SealInit toy_final_fails Fresh Xor8 [Pub 1] [7, 1, 2, 3, 4, 5, 6, 7, 8])))) = SealInit_writes (Seal_sizes toy_final_fails Xor8 [Pub 1] [1, 2, 3, 4, 5, 6, 7, 8, 9] empty_out) (length [Pub 1]) (fst (snd (EVP_SealInit toy_final_fails Fresh Xor8 [Pub 1] [7, 1, 2, 3, 4, 5, 6, 7, 8]))) (fst (snd (snd (EVP_SealInit toy_final_fails Fresh Xor8 [Pub 1] [7, 1, 2, 3, 4, 5, 6, 7, 8]))))"
    using nC by simp
  from Seal_failure_keeps_partial_output [OF gC pC, THEN conjunct2, rule_format, OF hC,
      THEN conjunct2, THEN conjunct2, rule_format] cC0 cC1 cC2 sC
  have rC: "Seal toy_final_fails ''xor-8'' [Pub 1] [1, 2, 3, 4, 5, 6, 7, 8, 9] [7, 1, 2, 3, 4, 5, 6, 7, 8] empty_out =
      (Some (OpenSSLException ''''),
       \<lparr>encrypted_keys_out = [[1, 6, 0, 0]], iv_out = [1, 2, 3, 4, 5, 6, 7, 8], ciphertext_out = [14, 13, 12, 11, 10, 9, 8, 7, 1, 2, 3, 0, 0, 0, 0, 0, 0]\<rparr>,
       [CTX_new, SealInit, SealUpdate, SealFinal, CTX_free])"
    by simp
  from rD rA rB rC show ?thesis
    by (intro conjI)
qed

text \<open>
  Claim C6. For a cipher name the library does not know, \<^verbatim>\<open>Seal\<close> (with a non-empty key
  list, as it requires) and both overloads of \<^verbatim>\<open>Open\<close> throw the exception with the
  unknown-cipher message (\<open>UnknownCipher\<close>) and have no effect: the output vectors and the
  buffer are returned as they were, and no library call is made, so no context exists and
  no key or IV has been generated.
\<close>

theorem unknown_cipher_no_effect:
  assumes "EVP_get_cipherbyname L cipher_name = None"
    and "0 < length pub_keys"
  shows "Seal L cipher_name pub_keys plaintext rnd out =
           (Some (OpenSSLException
                    (''Envelope::Seal: Unknown cipher '' @ [CHR 0x27] @ cipher_name @ [CHR 0x27])),
            out, []) \<and>
         Open_buffer L cipher_name priv_key ciphertext encrypted_key iv buf =
           (Inl (OpenSSLException
                   (''Envelope::Open: Unknown cipher '' @ [CHR 0x27] @ cipher_name @ [CHR 0x27])),
            buf, []) \<and>
         Open_vector L cipher_name priv_key ciphertext encrypted_key iv v =
           (Some (OpenSSLException
                    (''Envelope: Unknown cipher '' @ [CHR 0x27] @ cipher_name @ [CHR 0x27])),
            v, [])"
  using assms
  by (simp add: Seal_def Open_buffer_def Open_vector_def LogAndThrowOpenSSLError_def)

theorem unknown_cipher_no_effect_witness:
  "EVP_get_cipherbyname toy ''aes-256-cbc'' = None \<and>
   0 < length [Pub 1] \<and>
   Seal toy ''aes-256-cbc'' [Pub 1] [1, 2, 3] [7, 1, 2, 3, 4, 5, 6, 7, 8] empty_out =
     (Some (OpenSSLException
              (''Envelope::Seal: Unknown cipher '' @ [CHR 0x27] @ ''aes-256-cbc'' @ [CHR 0x27])),
      empty_out, []) \<and>
   Open_buffer toy ''aes-256-cbc'' (Priv 1) [7, 7, 7, 7, 7, 7, 7, 7] [1, 6]
     [1, 2, 3, 4, 5, 6, 7, 8] [9, 9] =
     (Inl (OpenSSLException
             (''Envelope::Open: Unknown cipher '' @ [CHR 0x27] @ ''aes-256-cbc'' @ [CHR 0x27])),
      [9, 9], []) \<and>
   Open_vector toy ''aes-256-cbc'' (Priv 1) [7, 7, 7, 7, 7, 7, 7, 7] [1, 6]
     [1, 2, 3, 4, 5, 6, 7, 8] [9, 9] =
     (Some (OpenSSLException
              (''Envelope: Unknown cipher '' @ [CHR 0x27] @ ''aes-256-cbc'' @ [CHR 0x27])),
      [9, 9], [])"
proof -
  have g: "EVP_get_cipherbyname toy ''aes-256-cbc'' = None"
    by (simp add: toy_def)
  have p: "0 < length [Pub 1]"
    by simp
  from unknown_cipher_no_effect [OF g p] g p show ?thesis
    by simp
qed

text \<open>
  Claim C7 at a plaintext of \<open>2^32 + 5\<close> bytes. \<^verbatim>\<open>Seal\<close> passes the size of the plaintext to
  \<^verbatim>\<open>EVP_SealUpdate\<close> as an \<^verbatim>\<open>int\<close>; the size is narrowed to 5, the library encrypts five
  bytes, and \<^verbatim>\<open>Seal\<close> returns a ciphertext of one block of 8 bytes, shorter than the
  plaintext.
\<close>

theorem Seal_truncates_long_plaintext:
  "length long_plaintext = 2 ^ 32 + 5 \<and>
   fst (Seal toy ''xor-8'' [Pub 1] long_plaintext [7, 1, 2, 3, 4, 5, 6, 7, 8] empty_out) = None \<and>
   ciphertext_out
     (fst (snd (Seal toy ''xor-8'' [Pub 1] long_plaintext [7, 1, 2, 3, 4, 5, 6, 7, 8] empty_out))) =
     [15, 15, 15, 15, 15, 12, 12, 12] \<and>
   \<not> length long_plaintext \<le> length [15, 15, 15, 15, 15, 12, 12, 12 :: byte]"
proof -
  have g: "EVP_get_cipherbyname toy ''xor-8'' = Some Xor8"
    and n: "EVP_CIPHER_CTX_new toy = Some Fresh"
    by (simp_all add: toy_def)
  have p: "0 < length [Pub 1]"
    by simp
  let ?X = "toy_SealInit Fresh Xor8 [Pub 1] [7, 1, 2, 3, 4, 5, 6, 7, 8]"
  have x: "?X = (int (length [Pub 1]), fst (snd ?X), [1, 2, 3, 4, 5, 6, 7, 8], Enc 15 [])"
    by (simp add: toy_SealInit_def Let_def resize_def toy_mask_def)
  then have si: "EVP_SealInit toy Fresh Xor8 [Pub 1] [7, 1, 2, 3, 4, 5, 6, 7, 8] =
      (int (length [Pub 1]), fst (snd ?X), [1, 2, 3, 4, 5, 6, 7, 8], Enc 15 [])"
    by (simp add: toy_def)
  have fk: "\<forall>i<length [Pub 1]. length (fst (snd ?X) i) \<le> EVP_PKEY_size toy ([Pub 1] ! i)"
    by (simp add: toy_SealInit_def Let_def toy_def)
  have fi: "length [1, 2, 3, 4, 5, 6, 7, 8 :: byte] \<le> EVP_CIPHER_iv_length toy Xor8"
    by (simp add: toy_def)
  have "toy_SealUpdate (Enc 15 []) long_plaintext 5 = (1, [], Enc 15 [0, 0, 0, 0, 0])"
    by (simp add: take_long_plaintext Let_def toy_crypt_def)
  then have su: "EVP_SealUpdate toy (Enc 15 []) long_plaintext (to_int (length long_plaintext)) =
      (1, [], Enc 15 [0, 0, 0, 0, 0])"
    by (simp add: toy_def to_int_long del: toy_SealUpdate.simps)
  have sf: "EVP_SealFinal toy (Enc 15 [0, 0, 0, 0, 0]) = (1, [15, 15, 15, 15, 15, 12, 12, 12])"
    by code_simp
  have fc: "length ([] :: bytes) + length [15, 15, 15, 15, 15, 12, 12, 12 :: byte]
      \<le> length long_plaintext + EVP_CIPHER_block_size toy Xor8"
    by (simp add: length_long_plaintext)
  have sm: "length ([] :: bytes) + length [15, 15, 15, 15, 15, 12, 12, 12 :: byte] < 2 ^ 31"
    by simp
  from Seal_run [OF g p n si fk fi su sf fc sm, of empty_out]
  have "fst (Seal toy ''xor-8'' [Pub 1] long_plaintext [7, 1, 2, 3, 4, 5, 6, 7, 8] empty_out) = None"
    and "ciphertext_out (fst (snd (Seal toy ''xor-8'' [Pub 1] long_plaintext
           [7, 1, 2, 3, 4, 5, 6, 7, 8] empty_out))) = [15, 15, 15, 15, 15, 12, 12, 12]"
    by simp_all
  moreover have "\<not> length long_plaintext \<le> length [15, 15, 15, 15, 15, 12, 12, 12 :: byte]"
    by (simp add: length_long_plaintext)
  ultimately show ?thesis
    using length_long_plaintext by (intro conjI)
qed

text \<open>
  For a plaintext whose size plus one block fits an \<^verbatim>\<open>int\<close> the bounds of claim C7 hold:
  the ciphertext of a padding block cipher is at least as long as the plaintext and at
  most one block longer.
\<close>

lemma Seal_ciphertext_length_bounded:
  assumes "Seal L cipher_name pub_keys plaintext rnd out = (None, out', calls)"
    and "EVP_get_cipherbyname L cipher_name = Some cipher"
    and "pads_to_block L cipher"
    and small: "length plaintext + EVP_CIPHER_block_size L cipher < 2 ^ 31"
  shows "length plaintext \<le> length (ciphertext_out out') \<and>
         length (ciphertext_out out') \<le> length plaintext + EVP_CIPHER_block_size L cipher"
proof -
  let ?bs = "EVP_CIPHER_block_size L cipher"
  from small have lp: "to_int (length plaintext) = int (length plaintext)"
    by (simp add: to_int_id)
  from Seal_success [OF assms(1)] assms(2) small lp obtain ctx ek ivw ctx1 w ctx2 w' where
    i: "EVP_SealInit L ctx cipher pub_keys rnd = (int (length pub_keys), ek, ivw, ctx1)"
    and u: "EVP_SealUpdate L ctx1 plaintext (int (length plaintext)) = (1, w, ctx2)"
    and f: "EVP_SealFinal L ctx2 = (1, w')"
    and b: "length w + length w' \<le> length plaintext + ?bs"
    and c: "ciphertext_out out' = w @ w'"
    by auto
  from assms(3) have pos: "0 < ?bs"
    by (simp add: pads_to_block_def)
  from pads_to_blockD [OF assms(3) small i u f]
  have e: "length w + length w' = (length plaintext div ?bs + 1) * ?bs" .
  from pos have "length plaintext < ?bs + (length plaintext div ?bs) * ?bs"
    by (rule dividend_less_div_times)
  then have "length plaintext \<le> (length plaintext div ?bs + 1) * ?bs"
    by simp
  with e b c show ?thesis
    by simp
qed

text \<open>
  Claim C8. Whenever the buffer overload returns on a buffer of the ciphertext length plus
  one block, the vector overload on the same arguments returns too, makes the same library
  calls, and its vector is the first \<open>n\<close> bytes of that buffer, where \<open>n\<close> is the length the
  buffer overload returned; the vector has exactly \<open>n\<close> elements. What the vector held
  before does not matter.
\<close>

theorem Open_vector_refines_Open_buffer:
  assumes cn: "EVP_get_cipherbyname L cipher_name = Some cipher"
    and cap: "length buf = length ciphertext + EVP_CIPHER_block_size L cipher"
    and ob: "Open_buffer L cipher_name priv_key ciphertext encrypted_key iv buf =
             (Inr n, buf', calls)"
  shows "Open_vector L cipher_name priv_key ciphertext encrypted_key iv v =
           (None, take n buf', calls) \<and>
         length (take n buf') = n"
proof -
  let ?v = "resize (length ciphertext + EVP_CIPHER_block_size L cipher) 0 v"
  let ?run = "Open_cipher L cipher priv_key ciphertext encrypted_key iv"
  from cn ob obtain past where b: "?run buf = (Inr n, buf', past, calls)"
    by (auto simp: Open_buffer_def split: prod.splits)
  have l: "length buf = length ?v"
    by (simp add: cap length_resize)
  obtain res v' past' calls' where r: "?run ?v = (res, v', past', calls')"
    by (cases "?run ?v") auto
  from Open_cipher_content [OF l, of L cipher priv_key ciphertext encrypted_key iv] b r
  have res: "res = Inr n" and c: "calls' = calls" and t: "take n buf' = take n v'"
    by simp_all
  from Open_cipher_returns_le [OF b]
    Open_cipher_length [of L cipher priv_key ciphertext encrypted_key iv buf] b
  have nb: "n \<le> length buf'"
    by simp
  from Open_cipher_length [of L cipher priv_key ciphertext encrypted_key iv ?v] r l nb b
    Open_cipher_length [of L cipher priv_key ciphertext encrypted_key iv buf]
  have nv: "n \<le> length v'"
    by simp
  then have "resize n 0 v' = take n v'"
    by (simp add: resize_def)
  with cn r res c t have "Open_vector L cipher_name priv_key ciphertext encrypted_key iv v =
           (None, take n buf', calls)"
    by (simp add: Open_vector_def Let_def)
  with nb show ?thesis
    by simp
qed

theorem Open_vector_refines_Open_buffer_witness:
  "EVP_get_cipherbyname toy ''xor-8'' = Some Xor8 \<and>
   length (replicate 24 (9 :: byte)) =
     length [103, 106, 99, 99, 96, 47, 120, 96, 125, 99, 107, 10, 10, 10, 10, 10 :: byte]
       + EVP_CIPHER_block_size toy Xor8 \<and>
   Open_buffer toy ''xor-8'' (Priv 2)
     [103, 106, 99, 99, 96, 47, 120, 96, 125, 99, 107, 10, 10, 10, 10, 10] [2, 5]
     [1, 2, 3, 4, 5, 6, 7, 8] (replicate 24 9) =
     (Inr 11, [104, 101, 108, 108, 111, 32, 119, 111, 114, 108, 100] @ replicate 13 9,
      [CTX_new, OpenInit, OpenUpdate, OpenFinal, CTX_free]) \<and>
   Open_vector toy ''xor-8'' (Priv 2)
     [103, 106, 99, 99, 96, 47, 120, 96, 125, 99, 107, 10, 10, 10, 10, 10] [2, 5]
     [1, 2, 3, 4, 5, 6, 7, 8] [1, 2, 3] =
     (None, [104, 101, 108, 108, 111, 32, 119, 111, 114, 108, 100],
      [CTX_new, OpenInit, OpenUpdate, OpenFinal, CTX_free])"
proof -
  have g: "EVP_get_cipherbyname toy ''xor-8'' = Some Xor8"
    by (simp add: toy_def)
  have l: "length (replicate 24 (9 :: byte)) =
     length [103, 106, 99, 99, 96, 47, 120, 96, 125, 99, 107, 10, 10, 10, 10, 10 :: byte]
       + EVP_CIPHER_block_size toy Xor8"
    by (simp add: toy_def)
  have b: "Open_buffer toy ''xor-8'' (Priv 2)
     [103, 106, 99, 99, 96, 47, 120, 96, 125, 99, 107, 10, 10, 10, 10, 10] [2, 5]
     [1, 2, 3, 4, 5, 6, 7, 8] (replicate 24 9) =
     (Inr 11, [104, 101, 108, 108, 111, 32, 119, 111, 114, 108, 100] @ replicate 13 9,
      [CTX_new, OpenInit, OpenUpdate, OpenFinal, CTX_free])"
    by code_simp
  from Open_vector_refines_Open_buffer [OF g l b, of "[1, 2, 3]"] g l b show ?thesis
    by simp
qed

text \<open>
  Claim C10. The overload that takes the resolved cipher never looks at the capacity of
  the output buffer before the library writes into it. With room for the ciphertext
  length plus one block (and a library that emits no more than that) no byte lands behind
  the buffer and the assertion of line 204 holds. Whatever the capacity, once the context
  is initialised the next call is the update that writes. On a buffer of four bytes for a
  ciphertext of two blocks the update writes eight bytes and the final call three more,
  seven of them behind the buffer, and nothing is raised until the assertion of line 204
  fails after the last write.
\<close>

theorem Open_cipher_capacity_unchecked:
  "(open_output_bounded L cipher \<and>
    length ciphertext + EVP_CIPHER_block_size L cipher \<le> length buf \<longrightarrow>
      fst (snd (snd (Open_cipher L cipher priv_key ciphertext encrypted_key iv buf))) = [] \<and>
      (length iv = EVP_CIPHER_iv_length L cipher \<longrightarrow>
        fst (Open_cipher L cipher priv_key ciphertext encrypted_key iv buf)
          \<noteq> Inl AssertionFailure)) \<and>
   (length iv = EVP_CIPHER_iv_length L cipher \<and> EVP_CIPHER_CTX_new L = Some ctx \<and>
    fst (EVP_OpenInit L ctx cipher encrypted_key iv priv_key) \<noteq> 0 \<longrightarrow>
      take 3 (snd (snd (snd (Open_cipher L cipher priv_key ciphertext encrypted_key iv buf)))) =
        [CTX_new, OpenInit, OpenUpdate]) \<and>
   Open_cipher toy Xor8 (Priv 1)
     [103, 106, 99, 99, 96, 47, 120, 96, 125, 99, 107, 10, 10, 10, 10, 10] [1, 6]
     [1, 2, 3, 4, 5, 6, 7, 8] [9, 9, 9, 9] =
     (Inl AssertionFailure, [104, 101, 108, 108], [111, 32, 119, 111, 114, 108, 100],
      [CTX_new, OpenInit, OpenUpdate, OpenFinal])"
proof (intro conjI impI)
  let ?run = "Open_cipher L cipher priv_key ciphertext encrypted_key iv buf"
  let ?cap = "length ciphertext + EVP_CIPHER_block_size L cipher"
  show "Open_cipher toy Xor8 (Priv 1)
     [103, 106, 99, 99, 96, 47, 120, 96, 125, 99, 107, 10, 10, 10, 10, 10] [1, 6]
     [1, 2, 3, 4, 5, 6, 7, 8] [9, 9, 9, 9] =
     (Inl AssertionFailure, [104, 101, 108, 108], [111, 32, 119, 111, 114, 108, 100],
      [CTX_new, OpenInit, OpenUpdate, OpenFinal])"
    by code_simp
  show "take 3 (snd (snd (snd ?run))) = [CTX_new, OpenInit, OpenUpdate]"
    if "length iv = EVP_CIPHER_iv_length L cipher \<and> EVP_CIPHER_CTX_new L = Some ctx \<and>
        fst (EVP_OpenInit L ctx cipher encrypted_key iv priv_key) \<noteq> 0"
    using that by (auto simp: Open_cipher_def Let_def split: prod.splits)
  have safe: "fst (snd (snd ?run)) = [] \<and>
      (length iv = EVP_CIPHER_iv_length L cipher \<longrightarrow> fst ?run \<noteq> Inl AssertionFailure)"
    if bnd: "open_output_bounded L cipher" and cap: "?cap \<le> length buf"
  proof (cases "length iv = EVP_CIPHER_iv_length L cipher")
    case False
    then show ?thesis by (simp add: Open_cipher_def)
  next
    case il: True
    show ?thesis
    proof (cases "EVP_CIPHER_CTX_new L")
      case None
      with il show ?thesis
        by (simp add: Open_cipher_def LogAndThrowOpenSSLError_def)
    next
      case (Some ctx)
      obtain q dx1 where oi: "EVP_OpenInit L ctx cipher encrypted_key iv priv_key = (q, dx1)"
        by (cases "EVP_OpenInit L ctx cipher encrypted_key iv priv_key") auto
      show ?thesis
      proof (cases "q = 0")
        case True
        with il Some oi show ?thesis
          by (simp add: Open_cipher_def LogAndThrowOpenSSLError_def)
      next
        case q: False
        obtain q1 p dx2 where
          ou: "EVP_OpenUpdate L dx1 ciphertext (to_int (length ciphertext)) = (q1, p, dx2)"
          by (cases "EVP_OpenUpdate L dx1 ciphertext (to_int (length ciphertext))") auto
        obtain q2 p' where ofi: "EVP_OpenFinal L dx2 = (q2, p')"
          by (cases "EVP_OpenFinal L dx2") auto
        note b = open_output_boundedD [OF bnd oi q ou ofi]
        from b cap have f1: "fits buf 0 p" and lp: "to_int (length p) = int (length p)"
          by (simp_all add: fits_def to_int_id)
        show ?thesis
        proof (cases "q1 = 1")
          case False
          with il Some oi q ou f1 show ?thesis
            by (simp add: Open_cipher_def Let_def LogAndThrowOpenSSLError_def spill_fits)
        next
          case True
          with b cap have le: "length p + length p' \<le> length buf"
            and sm: "length p + length p' < 2 ^ 31"
            by simp_all
          from le have f2: "fits (poke buf 0 p) (length p) p'"
            by (simp add: fits_def length_poke)
          from sm have lp': "to_int (length p') = int (length p')"
            by (simp add: to_int_id)
          from sm have "int (length p) + int (length p') < 2 ^ 31"
            by (metis of_nat_add of_nat_less_iff of_nat_numeral of_nat_power)
          then have s32: "int32 (int (length p) + int (length p')) =
              int (length p) + int (length p')"
            by (simp add: int32_id)
          have nn: "nat (int (length p) + int (length p')) = length p + length p'"
            by simp
          from il Some oi q ou ofi True f1 f2 lp lp' s32 nn le show ?thesis
            by (simp add: Open_cipher_def Let_def LogAndThrowOpenSSLError_def spill_fits
                  poke_at_def spill_at_def length_poke del: of_nat_add)
        qed
      qed
    qed
  qed
  show "fst (snd (snd ?run)) = []"
    if "open_output_bounded L cipher \<and> ?cap \<le> length buf"
    using that safe by simp
  show "fst ?run \<noteq> Inl AssertionFailure"
    if "open_output_bounded L cipher \<and> ?cap \<le> length buf"
      and "length iv = EVP_CIPHER_iv_length L cipher"
    using that safe by simp
qed

theorem Open_cipher_capacity_unchecked_witness:
  "open_output_bounded toy Xor8 \<and>
   length [103, 106, 99, 99, 96, 47, 120, 96, 125, 99, 107, 10, 10, 10, 10, 10 :: byte]
     + EVP_CIPHER_block_size toy Xor8 \<le> length (replicate 24 (9 :: byte)) \<and>
   length [1, 2, 3, 4, 5, 6, 7, 8 :: byte] = EVP_CIPHER_iv_length toy Xor8 \<and>
   EVP_CIPHER_CTX_new toy = Some Fresh \<and>
   fst (EVP_OpenInit toy Fresh Xor8 [1, 6] [1, 2, 3, 4, 5, 6, 7, 8] (Priv 1)) \<noteq> 0 \<and>
   fst (snd (snd (Open_cipher toy Xor8 (Priv 1)
     [103, 106, 99, 99, 96, 47, 120, 96, 125, 99, 107, 10, 10, 10, 10, 10] [1, 6]
     [1, 2, 3, 4, 5, 6, 7, 8] (replicate 24 9)))) = [] \<and>
   fst (Open_cipher toy Xor8 (Priv 1)
     [103, 106, 99, 99, 96, 47, 120, 96, 125, 99, 107, 10, 10, 10, 10, 10] [1, 6]
     [1, 2, 3, 4, 5, 6, 7, 8] (replicate 24 9)) \<noteq> Inl AssertionFailure \<and>
   take 3 (snd (snd (snd (Open_cipher toy Xor8 (Priv 1)
     [103, 106, 99, 99, 96, 47, 120, 96, 125, 99, 107, 10, 10, 10, 10, 10] [1, 6]
     [1, 2, 3, 4, 5, 6, 7, 8] (replicate 24 9))))) = [CTX_new, OpenInit, OpenUpdate]"
proof -
  have c: "length [103, 106, 99, 99, 96, 47, 120, 96, 125, 99, 107, 10, 10, 10, 10, 10 :: byte]
     + EVP_CIPHER_block_size toy Xor8 \<le> length (replicate 24 (9 :: byte))"
    by (simp add: toy_def)
  have il: "length [1, 2, 3, 4, 5, 6, 7, 8 :: byte] = EVP_CIPHER_iv_length toy Xor8"
    by (simp add: toy_def)
  have n: "EVP_CIPHER_CTX_new toy = Some Fresh"
    by (simp add: toy_def)
  have oi: "fst (EVP_OpenInit toy Fresh Xor8 [1, 6] [1, 2, 3, 4, 5, 6, 7, 8] (Priv 1)) \<noteq> 0"
    by (simp add: toy_def toy_OpenInit_def)
  note t = Open_cipher_capacity_unchecked [of toy Xor8
      "[103, 106, 99, 99, 96, 47, 120, 96, 125, 99, 107, 10, 10, 10, 10, 10]"
      "replicate 24 9" "Priv 1" "[1, 6]" "[1, 2, 3, 4, 5, 6, 7, 8]" Fresh]
  from t [THEN conjunct1, rule_format, OF conjI, OF toy_bounded c]
  have a: "fst (snd (snd (Open_cipher toy Xor8 (Priv 1)
     [103, 106, 99, 99, 96, 47, 120, 96, 125, 99, 107, 10, 10, 10, 10, 10] [1, 6]
     [1, 2, 3, 4, 5, 6, 7, 8] (replicate 24 9)))) = []"
    and b: "fst (Open_cipher toy Xor8 (Priv 1)
     [103, 106, 99, 99, 96, 47, 120, 96, 125, 99, 107, 10, 10, 10, 10, 10] [1, 6]
     [1, 2, 3, 4, 5, 6, 7, 8] (replicate 24 9)) \<noteq> Inl AssertionFailure"
    using il by simp_all
  from t [THEN conjunct2, THEN conjunct1] il n oi
  have d: "take 3 (snd (snd (snd (Open_cipher toy Xor8 (Priv 1)
     [103, 106, 99, 99, 96, 47, 120, 96, 125, 99, 107, 10, 10, 10, 10, 10] [1, 6]
     [1, 2, 3, 4, 5, 6, 7, 8] (replicate 24 9))))) = [CTX_new, OpenInit, OpenUpdate]"
    by simp
  from toy_bounded c il n oi a b d show ?thesis
    by (intro conjI)
qed

end
